theory Spec2Isabelle
  imports Complex_Main "HOL-Library.Char_ord" "HOL-Library.List_Lexorder" "HOL-Library.AList"
begin

section \<open>Python values, traits and errors\<close>

text \<open>
  The values that travel through \<^verbatim>\<open>hash_inputs\<close>: strings, numbers, the float that
  \<^verbatim>\<open>os.stat(...).st_mtime\<close> returns, lists and tuples.
\<close>

datatype pyval =
    Str string
  | Num int
  | Flt real
  | PList "pyval list"
  | Tuple "pyval list"

text \<open>
  A trait as \<^verbatim>\<open>_hash\<close> inspects it: \<^verbatim>\<open>trait.trait_type\<close> is a \<^verbatim>\<open>File\<close> (with its
  \<^verbatim>\<open>exists\<close> flag), a \<^verbatim>\<open>List\<close> (with \<^verbatim>\<open>trait.inner_traits[0]\<close>), or anything else.
\<close>

datatype trait =
    File bool
  | List trait
  | Other

text \<open>The exceptions of Python that the code meets. \<open>Outside\<close> is none of them: it
  marks a step that acts on a path which the disk of the model does not hold.\<close>

datatype error =
    ValueError string
  | OSError string
  | IOError string
  | TypeError
  | Outside string

text \<open>What \<^verbatim>\<open>os.stat\<close> can see of a file, and what it cannot (the content).\<close>

record file_obj =
  content :: string
  st_mtime :: real

type_synonym disk = "string \<rightharpoonup> file_obj"

section \<open>Functions for hashing input arguments\<close>

definition hash_file :: "disk \<Rightarrow> pyval \<Rightarrow> bool \<Rightarrow> error + pyval" where
  "hash_file fs filename exists =
     (if exists then
        (case filename of
           Str p \<Rightarrow> (case fs p of
                        None \<Rightarrow> Inl (OSError p)
                      | Some f \<Rightarrow> Inr (Tuple [filename, Flt (st_mtime f)]))
         | _ \<Rightarrow> Inl TypeError)
      else Inr filename)"

text \<open>\<^verbatim>\<open>for v in value\<close>: lists and tuples yield their elements, a string its characters,
  a number raises \<^verbatim>\<open>TypeError\<close>.\<close>

fun iter :: "pyval \<Rightarrow> error + pyval list" where
  "iter (PList vs) = Inr vs"
| "iter (Tuple vs) = Inr vs"
| "iter (Str s) = Inr (map (\<lambda>c. Str [c]) s)"
| "iter (Num n) = Inl TypeError"
| "iter (Flt x) = Inl TypeError"

text \<open>\<^verbatim>\<open>_hash(value, trait)\<close>; \<open>hash_all\<close> is its list comprehension, which stops at the
  first element that raises.\<close>

fun hash_val :: "disk \<Rightarrow> pyval \<Rightarrow> trait \<Rightarrow> error + pyval"
  and hash_all :: "disk \<Rightarrow> pyval list \<Rightarrow> trait \<Rightarrow> error + pyval list" where
  "hash_val fs v (File ex) = hash_file fs v ex"
| "hash_val fs v (List t) =
     (case iter v of
        Inl e \<Rightarrow> Inl e
      | Inr vs \<Rightarrow> (case hash_all fs vs t of Inl e \<Rightarrow> Inl e | Inr hs \<Rightarrow> Inr (PList hs)))"
| "hash_val fs v Other = Inr v"
| "hash_all fs [] t = Inr []"
| "hash_all fs (x # xs) t =
     (case hash_val fs x t of
        Inl e \<Rightarrow> Inl e
      | Inr h \<Rightarrow> (case hash_all fs xs t of Inl e \<Rightarrow> Inl e | Inr hs \<Rightarrow> Inr (h # hs)))"

text \<open>
  \<^verbatim>\<open>hash_inputs(inputs, input_spec, func_name)\<close>. The dictionary \<^verbatim>\<open>inputs\<close> is the list of
  its items in the order in which it yields them (each key once), and \<^verbatim>\<open>out\<close> is the
  list of its items in the order in which they were set: \<^verbatim>\<open>out[name] = ...\<close> puts a new
  key last and gives a key that is there its new value. \<^verbatim>\<open>traits\<close> is
  \<^verbatim>\<open>input_spec.class_traits()\<close>. Two dictionaries are equal in Python when they hold the
  same items, whatever the order: when \<open>map_of\<close> of the two lists is the same.
\<close>

fun hash_inputs_loop ::
  "disk \<Rightarrow> (string \<rightharpoonup> trait) \<Rightarrow> string \<Rightarrow> (string \<times> pyval) list \<Rightarrow> (string \<times> pyval) list
     \<Rightarrow> error + (string \<times> pyval) list" where
  "hash_inputs_loop fs traits func_name [] out = Inr out"
| "hash_inputs_loop fs traits func_name ((name, v) # rest) out =
     (case traits name of
        None \<Rightarrow> Inl (ValueError (''Invalid parameter '' @ name @ '' for '' @ func_name))
      | Some trait \<Rightarrow>
          (case hash_val fs v trait of
             Inl e \<Rightarrow> Inl e
           | Inr h \<Rightarrow> hash_inputs_loop fs traits func_name rest (AList.update name h out)))"

definition hash_inputs ::
  "disk \<Rightarrow> (string \<times> pyval) list \<Rightarrow> (string \<rightharpoonup> trait) \<Rightarrow> string
     \<Rightarrow> error + (string \<times> pyval) list" where
  "hash_inputs fs inputs traits func_name = hash_inputs_loop fs traits func_name inputs []"

text \<open>
  When \<^verbatim>\<open>_hash\<close> returns: a \<^verbatim>\<open>File\<close> that must exist is a string naming a file that
  \<^verbatim>\<open>os.stat\<close> finds, and the value of a \<^verbatim>\<open>List\<close> can be iterated, with elements that
  in turn can be fingerprinted.
\<close>

fun hashable :: "disk \<Rightarrow> pyval \<Rightarrow> trait \<Rightarrow> bool" where
  "hashable fs v (File ex) = (ex \<longrightarrow> (case v of Str p \<Rightarrow> fs p \<noteq> None | _ \<Rightarrow> False))"
| "hashable fs v (List t) =
     (case iter v of Inl e \<Rightarrow> False | Inr vs \<Rightarrow> list_all (\<lambda>x. hashable fs x t) vs)"
| "hashable fs v Other = True"

text \<open>
  A value is of the kind that its trait declares when, wherever the trait is a
  \<^verbatim>\<open>List\<close>, the value is a list whose elements are of the inner kind.
\<close>

fun conforms :: "pyval \<Rightarrow> trait \<Rightarrow> bool" where
  "conforms v (File ex) = True"
| "conforms v (List t) =
     (case v of PList vs \<Rightarrow> list_all (\<lambda>x. conforms x t) vs | _ \<Rightarrow> False)"
| "conforms v Other = True"

section \<open>The file system under the cache root\<close>

text \<open>
  A file system object is a regular file with its content, or a directory with its
  entries in the order \<^verbatim>\<open>os.listdir\<close> returns them. Names are single path segments:
  \<^verbatim>\<open>os.path.join(base_dir, name)\<close> is the entry \<open>name\<close> of the directory at
  \<^verbatim>\<open>base_dir\<close>. A path that does not exist is \<open>None\<close>.
\<close>

datatype node =
    RegFile string
  | Directory "(string \<times> node) list"

text \<open>The outcome of an operation that may raise, and the disk it leaves behind
  (an exception does not undo what was written before it).\<close>

type_synonym 'a outcome = "(error + 'a) \<times> node"

definition os_path_exists :: "node option \<Rightarrow> bool" where
  "os_path_exists obj = (obj \<noteq> None)"

definition os_path_isdir :: "node option \<Rightarrow> bool" where
  "os_path_isdir obj = (case obj of Some (Directory cs) \<Rightarrow> True | _ \<Rightarrow> False)"

fun child :: "node \<Rightarrow> string \<Rightarrow> node option" where
  "child (Directory cs) n = map_of cs n"
| "child (RegFile c) n = None"

fun listdir :: "node \<Rightarrow> string list" where
  "listdir (Directory cs) = map fst cs"
| "listdir (RegFile c) = []"

definition startswith :: "string \<Rightarrow> string \<Rightarrow> bool" where
  "startswith s p = (take (length p) s = p)"

definition endswith :: "string \<Rightarrow> string \<Rightarrow> bool" where
  "endswith s p = (length p \<le> length s \<and> drop (length s - length p) s = p)"

definition os_path_join :: "string \<Rightarrow> string \<Rightarrow> string" where
  "os_path_join a b =
     (if startswith b ''/'' then b
      else if a = [] \<or> endswith a ''/'' then a @ b
      else a @ ''/'' @ b)"

text \<open>\<^verbatim>\<open>try: os.mkdir(d) except OSError: "Dir exists"\<close>, for the entry \<open>n\<close> of a
  directory: nothing happens when the entry exists, or when the parent is no directory.\<close>

fun try_mkdir :: "string \<Rightarrow> node \<Rightarrow> node" where
  "try_mkdir n (Directory cs) =
     (if map_of cs n = None then Directory (cs @ [(n, Directory [])]) else Directory cs)"
| "try_mkdir n (RegFile c) = RegFile c"

text \<open>\<^verbatim>\<open>open(path, 'w')\<close> and \<^verbatim>\<open>open(path, 'a').write(s)\<close> for the entry \<open>n\<close> of a
  directory; both raise \<^verbatim>\<open>IOError\<close> on a directory.\<close>

fun open_w :: "string \<Rightarrow> node \<Rightarrow> error + node" where
  "open_w n (Directory cs) =
     (case map_of cs n of
        Some (Directory ds) \<Rightarrow> Inl (IOError n)
      | _ \<Rightarrow> Inr (Directory (AList.update n (RegFile []) cs)))"
| "open_w n (RegFile c) = Inl (IOError n)"

fun open_a_write :: "string \<Rightarrow> string \<Rightarrow> node \<Rightarrow> error + node" where
  "open_a_write n s (Directory cs) =
     (case map_of cs n of
        None \<Rightarrow> Inr (Directory (AList.update n (RegFile s) cs))
      | Some (RegFile c) \<Rightarrow> Inr (Directory (AList.update n (RegFile (c @ s)) cs))
      | Some (Directory ds) \<Rightarrow> Inl (IOError n))"
| "open_a_write n s (RegFile c) = Inl (IOError n)"

text \<open>An operation on the entry \<open>n\<close> of a directory, written back into the directory.\<close>

fun in_child :: "string \<Rightarrow> (node \<Rightarrow> error + node) \<Rightarrow> node \<Rightarrow> error + node" where
  "in_child n f (Directory cs) =
     (case map_of cs n of
        None \<Rightarrow> Inl (IOError n)
      | Some d \<Rightarrow> (case f d of Inl e \<Rightarrow> Inl e | Inr d' \<Rightarrow> Inr (Directory (AList.update n d' cs))))"
| "in_child n f (RegFile c) = Inl (IOError n)"

text \<open>\<^verbatim>\<open>shutil.rmtree\<close> of the entry \<open>n\<close>: a directory goes with all it holds, a regular
  file makes \<^verbatim>\<open>os.listdir\<close> raise.\<close>

fun rmtree :: "string \<Rightarrow> node \<Rightarrow> error + node" where
  "rmtree n (Directory cs) =
     (case map_of cs n of
        Some (Directory ds) \<Rightarrow> Inr (Directory (AList.delete n cs))
      | _ \<Rightarrow> Inl (OSError n))"
| "rmtree n (RegFile c) = Inl (OSError n)"

text \<open>\<^verbatim>\<open>os.remove\<close> of the entry \<open>n\<close>: only a regular file can be removed.\<close>

fun os_remove :: "string \<Rightarrow> node \<Rightarrow> error + node" where
  "os_remove n (Directory cs) =
     (case map_of cs n of
        Some (RegFile c) \<Rightarrow> Inr (Directory (AList.delete n cs))
      | _ \<Rightarrow> Inl (OSError n))"
| "os_remove n (RegFile c) = Inl (OSError n)"

text \<open>Iterating over an open file yields its lines, each with its newline; the last one
  has none when the file does not end with one.\<close>

fun py_lines :: "string \<Rightarrow> string list" where
  "py_lines [] = []"
| "py_lines (c # cs) =
     (if c = CHR 0x0A then [c] # py_lines cs
      else (case py_lines cs of [] \<Rightarrow> [[c]] | l # ls \<Rightarrow> (c # l) # ls))"

text \<open>\<^verbatim>\<open>set(l[:-1] for l in open(path, 'r'))\<close> for the entry \<open>n\<close>, as the list of its
  elements.\<close>

definition read_keys :: "string \<Rightarrow> node \<Rightarrow> error + string list" where
  "read_keys n d =
     (case child d n of
        Some (RegFile c) \<Rightarrow> Inr (remdups (map butlast (py_lines c)))
      | _ \<Rightarrow> Inl (IOError n))"

section \<open>Formatting numbers\<close>

definition digit_char :: "nat \<Rightarrow> char" where
  "digit_char d = ''0123456789'' ! d"

fun digits :: "nat \<Rightarrow> string" where
  "digits n = (if n < 10 then [digit_char n] else digits (n div 10) @ [digit_char (n mod 10)])"

text \<open>\<^verbatim>\<open>'%i' % n\<close> and \<^verbatim>\<open>'%02i' % n\<close>.\<close>

definition fmt_i :: "int \<Rightarrow> string" where
  "fmt_i n = (if n < 0 then CHR ''-'' # digits (nat (- n)) else digits (nat n))"

definition fmt_02i :: "int \<Rightarrow> string" where
  "fmt_02i n = (let s = fmt_i n in replicate (2 - length s) CHR ''0'' @ s)"

declare digits.simps [simp del]

section \<open>PipeFunc: callable interface to an interface class\<close>

text \<open>An interface class, as far as \<^verbatim>\<open>PipeFunc\<close> looks at it: \<^verbatim>\<open>__module__\<close>,
  \<^verbatim>\<open>__name__\<close>, the class printed with \<^verbatim>\<open>%s\<close>, and \<^verbatim>\<open>input_spec.class_traits()\<close>.\<close>

record interface_class =
  cls_module :: string
  cls_name :: string
  cls_str :: string
  class_traits :: "string \<rightharpoonup> trait"

record pipe_func =
  interface :: interface_class
  base_dir :: string
  callback :: "(string \<Rightarrow> node \<Rightarrow> unit outcome) option"

text \<open>
  \<^verbatim>\<open>PipeFunc.__init__\<close>. \<open>interface\<close> is \<open>None\<close> for an argument that is not an
  interface class; \<open>base_dir\<close> is \<^verbatim>\<open>os.path.abspath(base_dir)\<close> and \<open>obj\<close> what
  the disk holds at that path.
\<close>

definition PipeFunc_init ::
  "interface_class option \<Rightarrow> string \<Rightarrow> node option \<Rightarrow> (string \<Rightarrow> node \<Rightarrow> unit outcome) option
     \<Rightarrow> error + pipe_func" where
  "PipeFunc_init iface dir obj cb =
     (case iface of
        None \<Rightarrow> Inl (ValueError ''the interface argument should be a nipype interface class'')
      | Some i \<Rightarrow>
          if \<not> os_path_exists obj \<and> os_path_isdir obj
          then Inl (ValueError ''base_dir should be an existing directory'')
          else Inr \<lparr>interface = i, base_dir = dir, callback = cb\<rparr>)"

text \<open>\<^verbatim>\<open>s.replace('.', '-')\<close>.\<close>

definition replace_dots :: "string \<Rightarrow> string" where
  "replace_dots s = map (\<lambda>c. if c = CHR ''.'' then CHR ''-'' else c) s"

text \<open>
  The name of the node: \<^verbatim>\<open>'%s-%s_%s' % (module.replace('.', '-'), name, hexdigest)\<close>,
  the digest being that of the pickled dictionary of fingerprints. \<^verbatim>\<open>pickle.dumps\<close>
  and the md5 digest belong to the Python library and are parameters. \<^verbatim>\<open>pickle.dumps\<close>
  is given the dictionary as it was filled: it writes the items in the order in which
  the dictionary yields them, and this order depends on the order in which the keys
  were set (it is that order from Python 3.7 on; before, keys that fall into the same
  slot of the hash table are yielded in the order in which they were set).
\<close>

definition node_name ::
  "((string \<times> pyval) list \<Rightarrow> string) \<Rightarrow> (string \<Rightarrow> string) \<Rightarrow> interface_class
     \<Rightarrow> (string \<times> pyval) list \<Rightarrow> string" where
  "node_name pickle_dumps md5_hexdigest i inputs =
     replace_dots (cls_module i) @ ''-'' @ cls_name i @ ''_'' @ md5_hexdigest (pickle_dumps inputs)"

text \<open>A serialiser that writes the items in the order in which the dictionary yields
  them, as \<^verbatim>\<open>pickle.dumps\<close> does: here the names only, each on a line.\<close>

definition dumps_names :: "(string \<times> pyval) list \<Rightarrow> string" where
  "dumps_names d = concat (map (\<lambda>(k, v). k @ [CHR 0x0A]) d)"

text \<open>The name that \<^verbatim>\<open>PipeFunc.__call__\<close> makes for its node from the keyword
  arguments; \<open>files\<close> is what \<^verbatim>\<open>os.stat\<close> sees.\<close>

definition call_name ::
  "((string \<times> pyval) list \<Rightarrow> string) \<Rightarrow> (string \<Rightarrow> string) \<Rightarrow> disk \<Rightarrow> interface_class
     \<Rightarrow> (string \<times> pyval) list \<Rightarrow> error + string" where
  "call_name pickle_dumps md5_hexdigest files i kwargs =
     (case hash_inputs files kwargs (class_traits i) (cls_str i) of
        Inl e \<Rightarrow> Inl e
      | Inr inputs \<Rightarrow> Inr (node_name pickle_dumps md5_hexdigest i inputs))"

text \<open>
  \<^verbatim>\<open>PipeFunc.__call__\<close>. The parameters are what the call takes from outside this
  module: \<open>inputs_set\<close> is \<^verbatim>\<open>interface.inputs.set(**kwargs)\<close> (it returns the exception
  it raises, if any) and \<open>node_run\<close> runs the node of the given name under
  \<^verbatim>\<open>base_dir\<close>. \<open>rootd\<close> is the disk at \<^verbatim>\<open>base_dir\<close>.
\<close>

definition PipeFunc_call ::
  "((string \<times> pyval) list \<Rightarrow> error option) \<Rightarrow> ((string \<times> pyval) list \<Rightarrow> string)
     \<Rightarrow> (string \<Rightarrow> string)
     \<Rightarrow> (string \<Rightarrow> node \<Rightarrow> 'o outcome) \<Rightarrow> disk
     \<Rightarrow> pipe_func \<Rightarrow> (string \<times> pyval) list \<Rightarrow> node \<Rightarrow> 'o outcome" where
  "PipeFunc_call inputs_set pickle_dumps md5_hexdigest node_run files self kwargs rootd =
     (case inputs_set kwargs of
        Some e \<Rightarrow> (Inl e, rootd)
      | None \<Rightarrow>
          (case call_name pickle_dumps md5_hexdigest files (interface self) kwargs of
             Inl e \<Rightarrow> (Inl e, rootd)
           | Inr name \<Rightarrow>
               (case node_run name rootd of
                  (Inl e, rootd') \<Rightarrow> (Inl e, rootd')
                | (Inr out, rootd') \<Rightarrow>
                    (case callback self of
                       None \<Rightarrow> (Inr out, rootd')
                     | Some cb \<Rightarrow>
                         (case cb name rootd' of
                            (Inl e, rootd'') \<Rightarrow> (Inl e, rootd'')
                          | (Inr u, rootd'') \<Rightarrow> (Inr out, rootd''))))))"

section \<open>Memory: tracking what is computed when\<close>

text \<open>What \<^verbatim>\<open>time.localtime()\<close> returns, as far as it is used.\<close>

record tm =
  tm_year :: int
  tm_mon :: int
  tm_mday :: int

text \<open>
  \<^verbatim>\<open>Memory.__init__\<close>. \<open>abs_dir\<close> is \<^verbatim>\<open>os.path.abspath(base_dir)\<close> and \<open>parent\<close> what
  the disk holds at that path; the cache root is its entry \<^verbatim>\<open>nipype_mem\<close>.
  \<^verbatim>\<open>os.mkdir\<close> raises \<^verbatim>\<open>OSError\<close> when the parent is missing or is no directory. The
  result is \<^verbatim>\<open>self.base_dir\<close> and the disk at that path.
\<close>

definition Memory_init :: "string \<Rightarrow> node option \<Rightarrow> error + (string \<times> node)" where
  "Memory_init abs_dir parent =
     (let dir = os_path_join abs_dir ''nipype_mem'';
          obj = (case parent of None \<Rightarrow> None | Some p \<Rightarrow> child p ''nipype_mem'')
      in
      if \<not> os_path_exists obj then
        (if os_path_isdir parent then
           (case open_w ''log.current'' (Directory []) of
              Inl e \<Rightarrow> Inl e
            | Inr rootd \<Rightarrow> Inr (dir, rootd))
         else Inl (OSError dir))
      else if \<not> os_path_isdir obj then Inl (ValueError ''base_dir should be a directory'')
      else
        (case open_w ''log.current'' (the obj) of
           Inl e \<Rightarrow> Inl e
         | Inr rootd \<Rightarrow> Inr (dir, rootd)))"

text \<open>\<^verbatim>\<open>Memory._log_name\<close>, with the time that \<^verbatim>\<open>time.localtime()\<close> returns.\<close>

definition log_name :: "tm \<Rightarrow> string \<Rightarrow> node \<Rightarrow> unit outcome" where
  "log_name t name rootd =
     (case open_a_write ''log.current'' (name @ [CHR 0x0A]) rootd of
        Inl e \<Rightarrow> (Inl e, rootd)
      | Inr r1 \<Rightarrow>
          (let year_dir = ''log.'' @ fmt_i (tm_year t);
               r2 = try_mkdir year_dir r1;
               month_dir = fmt_02i (tm_mon t);
               r3 = (case in_child year_dir (\<lambda>d. Inr (try_mkdir month_dir d)) r2 of
                       Inl e \<Rightarrow> r2 | Inr r \<Rightarrow> r)
           in case in_child year_dir
                     (in_child month_dir
                        (open_a_write (fmt_02i (tm_mday t) @ ''.log'') (name @ [CHR 0x0A]))) r3 of
                Inl e \<Rightarrow> (Inl e, r3)
              | Inr r4 \<Rightarrow> (Inr (), r4)))"

text \<open>\<^verbatim>\<open>Memory.cache\<close>: the callback is \<^verbatim>\<open>_MemoryCallback(self)\<close>, which calls
  \<^verbatim>\<open>_log_name\<close> with the time of the call.\<close>

definition Memory_cache ::
  "tm \<Rightarrow> interface_class option \<Rightarrow> string \<Rightarrow> node option \<Rightarrow> error + pipe_func" where
  "Memory_cache t iface dir obj = PipeFunc_init iface dir obj (Some (log_name t))"

text \<open>
  A name of an entry of a directory: a single path segment. For such a name
  \<^verbatim>\<open>os.path.join(self.base_dir, dirname)\<close> is the entry \<open>dirname\<close> of the cache root. For
  any other string (empty, \<^verbatim>\<open>.\<close>, \<^verbatim>\<open>..\<close>, or one with a slash or a NUL in it) the path is
  the cache root itself, a path further down or a path outside the cache root, and
  the code removes what it finds there.
\<close>

definition entry_name :: "string \<Rightarrow> bool" where
  "entry_name k =
     (k \<noteq> [] \<and> k \<noteq> ''.'' \<and> k \<noteq> ''..'' \<and> CHR ''/'' \<notin> set k \<and> CHR 0x00 \<notin> set k)"

text \<open>
  \<^verbatim>\<open>Memory._clear_all_but\<close>. \<open>runs\<close> lists the elements of the set; the order in
  which Python walks \<^verbatim>\<open>old_dirs\<close> is that of a set turned into a list, here the one of
  \<open>remdups\<close>. The disk of the model is the cache root with its entries: at a name
  that is no entry name the loop of the model stops with \<open>Outside\<close>. The notice
  printed under \<^verbatim>\<open>warn\<close> is not kept.
\<close>

fun clear_loop :: "string list \<Rightarrow> node \<Rightarrow> unit outcome" where
  "clear_loop [] rootd = (Inr (), rootd)"
| "clear_loop (dirname # rest) rootd =
     (if \<not> entry_name dirname then (Inl (Outside dirname), rootd)
      else if os_path_exists (child rootd dirname) then
        (case rmtree dirname rootd of
           Inl e \<Rightarrow> (Inl e, rootd)
         | Inr rootd' \<Rightarrow> clear_loop rest rootd')
      else clear_loop rest rootd)"

definition symmetric_difference :: "string list \<Rightarrow> string list \<Rightarrow> string list" where
  "symmetric_difference runs dirs =
     remdups ([r \<leftarrow> runs. r \<notin> set dirs] @ [d \<leftarrow> dirs. d \<notin> set runs])"

definition clear_all_but :: "string list \<Rightarrow> node \<Rightarrow> unit outcome" where
  "clear_all_but runs rootd =
     (let dirs = [d \<leftarrow> listdir rootd. \<not> startswith d ''log.''];
          old_dirs = symmetric_difference runs dirs
      in clear_loop old_dirs rootd)"

text \<open>\<^verbatim>\<open>Memory.clear_previous_runs\<close>.\<close>

definition clear_previous_runs :: "node \<Rightarrow> unit outcome" where
  "clear_previous_runs rootd =
     (case read_keys ''log.current'' rootd of
        Inl e \<Rightarrow> (Inl e, rootd)
      | Inr latest_runs \<Rightarrow> clear_all_but latest_runs rootd)"

text \<open>The characters that make \<^verbatim>\<open>glob\<close> read a string as a pattern.\<close>

definition has_magic :: "string \<Rightarrow> bool" where
  "has_magic s = (\<exists>c \<in> set s. c \<in> set ''*?['')"

text \<open>
  \<^verbatim>\<open>glob.glob('%s/log.*/*/*.log' % base_dir)\<close> for a \<^verbatim>\<open>base_dir\<close> without pattern
  characters: the three names of every match, in the order of the listings. A \<^verbatim>\<open>*\<close>
  does not match a name that starts with a dot, and only a directory has entries to
  match.
\<close>

fun entries :: "node \<Rightarrow> (string \<times> node) list" where
  "entries (Directory cs) = cs"
| "entries (RegFile c) = []"

definition glob_logs :: "node \<Rightarrow> (string \<times> string \<times> string) list" where
  "glob_logs rootd =
     concat (map (\<lambda>(n1, d1).
       if startswith n1 ''log.'' then
         concat (map (\<lambda>(n2, d2).
           if \<not> startswith n2 ''.'' then
             map (\<lambda>(n3, d3). (n1, n2, n3))
               (filter (\<lambda>(n3, d3). endswith n3 ''.log'' \<and> \<not> startswith n3 ''.'') (entries d2))
           else []) (entries d1))
       else []) (entries rootd))"

text \<open>The path that \<^verbatim>\<open>glob\<close> returns for a match.\<close>

definition log_path :: "string \<Rightarrow> string \<times> string \<times> string \<Rightarrow> string" where
  "log_path dir l =
     (case l of (n1, n2, n3) \<Rightarrow> os_path_join (os_path_join (os_path_join dir n1) n2) n3)"

definition read_log :: "string \<times> string \<times> string \<Rightarrow> node \<Rightarrow> error + string list" where
  "read_log l rootd =
     (case l of (n1, n2, n3) \<Rightarrow>
        (case child rootd n1 of
           None \<Rightarrow> Inl (IOError n1)
         | Some d1 \<Rightarrow>
             (case child d1 n2 of
                None \<Rightarrow> Inl (IOError n2)
              | Some d2 \<Rightarrow> read_keys n3 d2)))"

text \<open>The loop over the matches: \<open>flush\<close> is \<^verbatim>\<open>logs_to_flush\<close>, \<open>recent\<close> lists
  the elements of \<^verbatim>\<open>recently_run\<close>. Strings compare as Python compares them, character
  by character.\<close>

fun scan_logs ::
  "string \<Rightarrow> string \<Rightarrow> node \<Rightarrow> (string \<times> string \<times> string) list
     \<Rightarrow> (string \<times> string \<times> string) list \<Rightarrow> string list
     \<Rightarrow> error + ((string \<times> string \<times> string) list \<times> string list)" where
  "scan_logs dir cut_off_file rootd [] flush recent = Inr (flush, recent)"
| "scan_logs dir cut_off_file rootd (l # ls) flush recent =
     (if log_path dir l < cut_off_file
      then scan_logs dir cut_off_file rootd ls (flush @ [l]) recent
      else (case read_log l rootd of
              Inl e \<Rightarrow> Inl e
            | Inr ks \<Rightarrow> scan_logs dir cut_off_file rootd ls flush (List.union recent ks)))"

fun remove_logs :: "(string \<times> string \<times> string) list \<Rightarrow> node \<Rightarrow> unit outcome" where
  "remove_logs [] rootd = (Inr (), rootd)"
| "remove_logs ((n1, n2, n3) # ls) rootd =
     (case in_child n1 (in_child n2 (os_remove n3)) rootd of
        Inl e \<Rightarrow> (Inl (OSError n3), rootd)
      | Inr rootd' \<Rightarrow> remove_logs ls rootd')"

text \<open>\<^verbatim>\<open>Memory.clear_runs_since\<close>, with \<^verbatim>\<open>self.base_dir\<close> and the time that
  \<^verbatim>\<open>time.localtime()\<close> returns; an argument left out is \<open>None\<close>. With a pattern
  character in \<^verbatim>\<open>base_dir\<close> the pattern is matched against other paths than those of
  the cache root: the model stops there with \<open>Outside\<close>.\<close>

definition clear_runs_since ::
  "string \<Rightarrow> tm \<Rightarrow> int option \<Rightarrow> int option \<Rightarrow> int option \<Rightarrow> node \<Rightarrow> unit outcome" where
  "clear_runs_since dir t day month year rootd =
     (let day = (case day of Some d \<Rightarrow> d | None \<Rightarrow> tm_mday t);
          month = (case month of Some m \<Rightarrow> m | None \<Rightarrow> tm_mon t);
          year = (case year of Some y \<Rightarrow> y | None \<Rightarrow> tm_year t);
          cut_off_file = dir @ ''/log.'' @ fmt_i year @ ''/'' @ fmt_02i month @ ''/''
                           @ fmt_02i day @ ''.log''
      in if has_magic dir then (Inl (Outside dir), rootd)
         else
           (case scan_logs dir cut_off_file rootd (glob_logs rootd) [] [] of
              Inl e \<Rightarrow> (Inl e, rootd)
            | Inr (logs_to_flush, recently_run) \<Rightarrow>
                (case clear_all_but recently_run rootd of
                   (Inl e, rootd') \<Rightarrow> (Inl e, rootd')
                 | (Inr u, rootd') \<Rightarrow> remove_logs logs_to_flush rootd')))"

section \<open>Reading the disk\<close>

text \<open>What has been written to a path so far: the content of a regular file, nothing
  where there is no file.\<close>

definition file_text :: "node option \<Rightarrow> string" where
  "file_text obj = (case obj of Some (RegFile c) \<Rightarrow> c | _ \<Rightarrow> [])"

text \<open>The object three names below the cache root.\<close>

definition lookup3 :: "node \<Rightarrow> string \<times> string \<times> string \<Rightarrow> node option" where
  "lookup3 rootd l =
     (case l of (n1, n2, n3) \<Rightarrow>
        (case child rootd n1 of
           None \<Rightarrow> None
         | Some d1 \<Rightarrow> (case child d1 n2 of None \<Rightarrow> None | Some d2 \<Rightarrow> child d2 n3)))"

text \<open>The three names of the log of a day: \<^verbatim>\<open>log.%i\<close>, \<^verbatim>\<open>%02i\<close> and \<^verbatim>\<open>%02i.log\<close>.\<close>

definition day_log :: "int \<Rightarrow> int \<Rightarrow> int \<Rightarrow> string \<times> string \<times> string" where
  "day_log year month day = (''log.'' @ fmt_i year, fmt_02i month, fmt_02i day @ ''.log'')"

text \<open>
  The disk is laid out for the log of the day \<open>t\<close>: the cache root is a directory,
  \<^verbatim>\<open>log.current\<close> is no directory, and on the way to the log of the day the year and the
  month are directories, and the log a regular file, as far as they exist.
\<close>

definition can_log :: "tm \<Rightarrow> node \<Rightarrow> bool" where
  "can_log t rootd =
     (case day_log (tm_year t) (tm_mon t) (tm_mday t) of (y, m, d) \<Rightarrow>
        os_path_isdir (Some rootd) \<and> \<not> os_path_isdir (child rootd ''log.current'')
        \<and> (case child rootd y of
             None \<Rightarrow> True
           | Some yd \<Rightarrow>
               os_path_isdir (Some yd)
               \<and> (case child yd m of
                    None \<Rightarrow> True
                  | Some md \<Rightarrow> os_path_isdir (Some md) \<and> \<not> os_path_isdir (child md d))))"

text \<open>The keys recorded through a handle: one call of \<^verbatim>\<open>_log_name\<close> after the other,
  each at its time, until one raises.\<close>

fun log_names :: "(tm \<times> string) list \<Rightarrow> node \<Rightarrow> unit outcome" where
  "log_names [] rootd = (Inr (), rootd)"
| "log_names ((t, name) # rest) rootd =
     (case log_name t name rootd of
        (Inl e, rootd') \<Rightarrow> (Inl e, rootd')
      | (Inr u, rootd') \<Rightarrow> log_names rest rootd')"




section \<open>Properties of the fingerprints\<close>

lemma hash_all_list_all2:
  "hash_all fs vs t = Inr hs \<longleftrightarrow> list_all2 (\<lambda>v h. hash_val fs v t = Inr h) vs hs"
proof (induction vs arbitrary: hs)
  case Nil
  then show ?case by auto
next
  case (Cons v vs)
  show ?case
  proof (cases hs)
    case Nil
    then show ?thesis by (auto split: sum.splits)
  next
    case (Cons a list)
    have "hash_all fs (v # vs) t = Inr (a # list) \<longleftrightarrow>
        hash_val fs v t = Inr a \<and> hash_all fs vs t = Inr list"
      by (auto split: sum.splits)
    then show ?thesis unfolding Cons using Cons.IH [of list] by simp
  qed
qed

lemma hash_no_value_error:
  "hash_val fs v t \<noteq> Inl (ValueError m)" "hash_all fs vs t \<noteq> Inl (ValueError m)"
proof (induction fs v t and fs vs t rule: hash_val_hash_all.induct)
  case (1 fs v ex)
  then show ?case by (simp add: hash_file_def split: pyval.splits option.splits)
next
  case (2 fs v t)
  then show ?case by (cases v) (auto split: sum.splits)
next
  case (5 fs x xs t)
  then show ?case by (auto split: sum.splits)
qed simp_all

lemma hashable_iff:
  "(\<exists>h. hash_val fs v t = Inr h) \<longleftrightarrow> hashable fs v t"
  "(\<exists>hs. hash_all fs vs t = Inr hs) \<longleftrightarrow> list_all (\<lambda>x. hashable fs x t) vs"
proof (induction fs v t and fs vs t rule: hash_val_hash_all.induct)
  case (1 fs v ex)
  then show ?case by (auto simp: hash_file_def split: pyval.splits option.splits)
next
  case (2 fs v t)
  then show ?case by (auto split: sum.splits)
next
  case (5 fs x xs t)
  then show ?case by (auto split: sum.splits)
qed simp_all

lemma hash_inj:
  "\<forall>w h. conforms v t \<longrightarrow> conforms w t \<longrightarrow> hash_val fs v t = Inr h \<longrightarrow> hash_val fs w t = Inr h
     \<longrightarrow> v = w"
  "\<forall>ws hs. list_all (\<lambda>x. conforms x t) vs \<longrightarrow> list_all (\<lambda>x. conforms x t) ws
     \<longrightarrow> hash_all fs vs t = Inr hs \<longrightarrow> hash_all fs ws t = Inr hs \<longrightarrow> vs = ws"
proof (induction fs v t and fs vs t rule: hash_val_hash_all.induct)
  case (1 fs v ex)
  then show ?case
    by (auto simp: hash_file_def split: if_splits pyval.splits option.splits)
next
  case (2 fs v t)
  then show ?case by (auto split: sum.splits pyval.splits)
next
  case (3 fs v)
  then show ?case by simp
next
  case (4 fs t)
  show ?case
  proof (intro allI impI)
    fix ws hs
    assume "hash_all fs [] t = Inr hs" and "hash_all fs ws t = Inr hs"
    then show "[] = ws" by (cases ws) (auto split: sum.splits)
  qed
next
  case (5 fs x xs t)
  show ?case
  proof (intro allI impI)
    fix ws hs
    assume cv: "list_all (\<lambda>a. conforms a t) (x # xs)" and cw: "list_all (\<lambda>a. conforms a t) ws"
      and hv: "hash_all fs (x # xs) t = Inr hs" and hw: "hash_all fs ws t = Inr hs"
    from hv obtain h hs' where h: "hash_val fs x t = Inr h" and hs': "hash_all fs xs t = Inr hs'"
      and hs: "hs = h # hs'"
      by (auto split: sum.splits)
    from hw hs obtain w ws' where ws: "ws = w # ws'"
      by (cases ws) auto
    from hw hs ws have w: "hash_val fs w t = Inr h" and ws': "hash_all fs ws' t = Inr hs'"
      by (auto split: sum.splits)
    from "5.IH"(1) cv cw ws h w have "x = w" by auto
    moreover from "5.IH"(2) [OF h] cv cw ws hs' ws' have "xs = ws'" by auto
    ultimately show "x # xs = ws" using ws by simp
  qed
qed

text \<open>The loop of \<^verbatim>\<open>hash_inputs\<close>, when each input can be fingerprinted.\<close>

lemma loop_ok:
  assumes "\<forall>(n, v) \<in> set inputs. \<exists>t. traits n = Some t \<and> hashable fs v t"
  shows "\<exists>res. hash_inputs_loop fs traits fn inputs out = Inr res
    \<and> fst ` set res = fst ` set out \<union> fst ` set inputs
    \<and> (\<forall>k. k \<notin> fst ` set inputs \<longrightarrow> map_of res k = map_of out k)
    \<and> (distinct (map fst inputs) \<longrightarrow>
         (\<forall>(n, v) \<in> set inputs. \<exists>t h. traits n = Some t \<and> hash_val fs v t = Inr h
            \<and> map_of res n = Some h))"
  using assms
proof (induction inputs arbitrary: out)
  case Nil
  then show ?case by simp
next
  case (Cons p inputs)
  obtain n v where p: "p = (n, v)" by (cases p)
  from Cons.prems p obtain t where t: "traits n = Some t" and "hashable fs v t" by auto
  then obtain h where h: "hash_val fs v t = Inr h" using hashable_iff(1) by blast
  from Cons.prems have rest: "\<forall>(n, v) \<in> set inputs. \<exists>t. traits n = Some t \<and> hashable fs v t"
    by simp
  have step: "hash_inputs_loop fs traits fn (p # inputs) out =
      hash_inputs_loop fs traits fn inputs (AList.update n h out)"
    unfolding p using t h by simp
  from Cons.IH [OF rest, of "AList.update n h out"] obtain res where
    res: "hash_inputs_loop fs traits fn inputs (AList.update n h out) = Inr res"
    and d: "fst ` set res = fst ` set (AList.update n h out) \<union> fst ` set inputs"
    and keep: "\<forall>k. k \<notin> fst ` set inputs \<longrightarrow> map_of res k = map_of (AList.update n h out) k"
    and fp: "distinct (map fst inputs) \<longrightarrow>
         (\<forall>(n, v) \<in> set inputs. \<exists>t h. traits n = Some t \<and> hash_val fs v t = Inr h
            \<and> map_of res n = Some h)"
    by blast
  have "fst ` set res = fst ` set out \<union> fst ` set (p # inputs)"
    using d p by (auto simp: dom_update)
  moreover have "\<forall>k. k \<notin> fst ` set (p # inputs) \<longrightarrow> map_of res k = map_of out k"
    using keep p by (auto simp: update_conv')
  moreover have "distinct (map fst (p # inputs)) \<longrightarrow>
         (\<forall>(n, v) \<in> set (p # inputs). \<exists>t h. traits n = Some t \<and> hash_val fs v t = Inr h
            \<and> map_of res n = Some h)"
  proof
    assume dist: "distinct (map fst (p # inputs))"
    then have "n \<notin> fst ` set inputs" using p by simp
    with keep have "map_of res n = Some h" by (simp add: update_conv')
    with t h fp dist p
    show "\<forall>(n, v) \<in> set (p # inputs). \<exists>t h. traits n = Some t \<and> hash_val fs v t = Inr h
            \<and> map_of res n = Some h"
      by simp
  qed
  ultimately show ?case using step res by simp
qed

lemma loop_fail:
  "\<exists>(n, v) \<in> set inputs. \<forall>t. traits n = Some t \<longrightarrow> \<not> hashable fs v t \<Longrightarrow>
   isl (hash_inputs_loop fs traits fn inputs out)"
proof (induction inputs arbitrary: out)
  case Nil
  then show ?case by simp
next
  case (Cons p inputs)
  obtain n v where p: "p = (n, v)" by (cases p)
  show ?case
  proof (cases "traits n")
    case None
    then show ?thesis unfolding p by simp
  next
    case (Some t)
    show ?thesis
    proof (cases "hash_val fs v t")
      case (Inl e)
      with Some show ?thesis unfolding p by simp
    next
      case (Inr h)
      then have "hashable fs v t" using hashable_iff(1) by blast
      with Cons.prems p Some
      have "\<exists>(n, v) \<in> set inputs. \<forall>t. traits n = Some t \<longrightarrow> \<not> hashable fs v t" by auto
      from Cons.IH [OF this] Some Inr show ?thesis unfolding p by simp
    qed
  qed
qed

lemma loop_value_error:
  "hash_inputs_loop fs traits fn inputs out = Inl (ValueError m) \<Longrightarrow>
   \<exists>n \<in> fst ` set inputs. traits n = None \<and> m = ''Invalid parameter '' @ n @ '' for '' @ fn"
proof (induction inputs arbitrary: out)
  case Nil
  then show ?case by simp
next
  case (Cons p inputs)
  obtain n v where p: "p = (n, v)" by (cases p)
  show ?case
  proof (cases "traits n")
    case None
    with Cons.prems p show ?thesis by auto
  next
    case (Some t)
    show ?thesis
    proof (cases "hash_val fs v t")
      case (Inl e)
      with Cons.prems p Some have "e = ValueError m" by simp
      with Inl hash_no_value_error(1) show ?thesis by blast
    next
      case (Inr h)
      with Cons.prems p Some
      have "hash_inputs_loop fs traits fn inputs (AList.update n h out) = Inl (ValueError m)"
        by simp
      from Cons.IH [OF this] show ?thesis by auto
    qed
  qed
qed

text \<open>The loop stops at the first name that is not declared, and names it, when the
  inputs before it can be fingerprinted.\<close>

lemma loop_first_undeclared:
  assumes "traits n = None"
    and "\<forall>(m, w) \<in> set pre. \<exists>t. traits m = Some t \<and> hashable fs w t"
  shows "hash_inputs_loop fs traits fn (pre @ (n, v) # post) out
    = Inl (ValueError (''Invalid parameter '' @ n @ '' for '' @ fn))"
  using assms(2)
proof (induction pre arbitrary: out)
  case Nil
  with assms(1) show ?case by simp
next
  case (Cons p pre)
  obtain m w where p: "p = (m, w)" by (cases p)
  from Cons.prems p obtain t where t: "traits m = Some t" and "hashable fs w t" by auto
  then obtain h where h: "hash_val fs w t = Inr h" using hashable_iff(1) by blast
  from Cons.prems have "\<forall>(m, w) \<in> set pre. \<exists>t. traits m = Some t \<and> hashable fs w t" by simp
  from Cons.IH [OF this, of "AList.update m h out"] t h show ?case
    unfolding p by simp
qed

lemma hash_inputs_order:
  assumes d1: "distinct (map fst i1)" and d2: "distinct (map fst i2)" and eq: "set i1 = set i2"
  shows "(isl (hash_inputs fs i1 traits fn) \<longleftrightarrow> isl (hash_inputs fs i2 traits fn))
    \<and> (\<forall>r1. hash_inputs fs i1 traits fn = Inr r1 \<longrightarrow>
          (\<exists>r2. hash_inputs fs i2 traits fn = Inr r2 \<and> map_of r1 = map_of r2))"
proof (cases "\<forall>(n, v) \<in> set i1. \<exists>t. traits n = Some t \<and> hashable fs v t")
  case True
  from loop_ok [OF True, of fn "[]"] d1 obtain r1 where
    r1: "hash_inputs fs i1 traits fn = Inr r1" and dom1: "fst ` set r1 = fst ` set i1"
    and fp1: "\<forall>(n, v) \<in> set i1. \<exists>t h. traits n = Some t \<and> hash_val fs v t = Inr h
                \<and> map_of r1 n = Some h"
    unfolding hash_inputs_def by auto
  from True eq have "\<forall>(n, v) \<in> set i2. \<exists>t. traits n = Some t \<and> hashable fs v t" by simp
  from loop_ok [OF this, of fn "[]"] d2 obtain r2 where
    r2: "hash_inputs fs i2 traits fn = Inr r2" and dom2: "fst ` set r2 = fst ` set i2"
    and fp2: "\<forall>(n, v) \<in> set i2. \<exists>t h. traits n = Some t \<and> hash_val fs v t = Inr h
                \<and> map_of r2 n = Some h"
    unfolding hash_inputs_def by auto
  have "map_of r1 k = map_of r2 k" for k
  proof (cases "k \<in> fst ` set i1")
    case True
    then obtain v where kv: "(k, v) \<in> set i1" by auto
    with fp1 obtain t h where "traits k = Some t" "hash_val fs v t = Inr h" "map_of r1 k = Some h"
      by blast
    moreover from kv eq fp2 obtain t' h' where "traits k = Some t'" "hash_val fs v t' = Inr h'"
      "map_of r2 k = Some h'" by blast
    ultimately show ?thesis by simp
  next
    case False
    with dom1 dom2 eq have "k \<notin> fst ` set r1" "k \<notin> fst ` set r2" by auto
    then have "map_of r1 k = None" "map_of r2 k = None" by (simp_all add: map_of_eq_None_iff)
    then show ?thesis by simp
  qed
  then have "map_of r1 = map_of r2" by (rule ext)
  with r1 r2 show ?thesis by simp
next
  case False
  then have f1: "\<exists>(n, v) \<in> set i1. \<forall>t. traits n = Some t \<longrightarrow> \<not> hashable fs v t" by auto
  with eq have f2: "\<exists>(n, v) \<in> set i2. \<forall>t. traits n = Some t \<longrightarrow> \<not> hashable fs v t" by simp
  from loop_fail [OF f1, of fn "[]"] loop_fail [OF f2, of fn "[]"]
  have "isl (hash_inputs fs i1 traits fn)" "isl (hash_inputs fs i2 traits fn)"
    unfolding hash_inputs_def by simp_all
  then show ?thesis by (auto simp: isl_def)
qed

section \<open>The claims on fingerprints and cache keys\<close>

text \<open>
  C2, as stated, fails. The two calls give the keyword arguments in the two orders;
  the dictionaries of fingerprints hold the same items, but in the two orders, and a
  serialiser that writes the items as the dictionary yields them gives the digest two
  different strings: the names of the two nodes differ.
\<close>

theorem cache_key_order_counterexample:
  "set [(''dimension'', Str ''t''), (''in_files'', PList [Str ''a.nii'', Str ''b.nii''])]
     = set [(''in_files'', PList [Str ''a.nii'', Str ''b.nii'']), (''dimension'', Str ''t'')]
   \<and> call_name dumps_names id Map.empty
        \<lparr>cls_module = ''nipype.interfaces.fsl'', cls_name = ''Merge'', cls_str = ''Merge'',
         class_traits = [''dimension'' \<mapsto> Other, ''in_files'' \<mapsto> List (File False)]\<rparr>
        [(''dimension'', Str ''t''), (''in_files'', PList [Str ''a.nii'', Str ''b.nii''])]
      \<noteq> call_name dumps_names id Map.empty
        \<lparr>cls_module = ''nipype.interfaces.fsl'', cls_name = ''Merge'', cls_str = ''Merge'',
         class_traits = [''dimension'' \<mapsto> Other, ''in_files'' \<mapsto> List (File False)]\<rparr>
        [(''in_files'', PList [Str ''a.nii'', Str ''b.nii'']), (''dimension'', Str ''t'')]"
  by (auto simp: call_name_def hash_inputs_def hash_file_def node_name_def dumps_names_def)

text \<open>
  C2, amended. Two dictionaries of keyword arguments that hold the same items, in
  whatever order they are walked, give dictionaries of fingerprints that hold the same
  items, and \<^verbatim>\<open>hash_inputs\<close> raises for the one exactly when it raises for the other.
  The name of the node is the identity of the interface and the md5 digest of the
  pickled dictionary; it is the same for the two calls when \<^verbatim>\<open>pickle.dumps\<close> gives
  the same string for dictionaries that hold the same items. (The code does not put
  the items in an order of its own before pickling them.)
\<close>

theorem cache_key_order:
  assumes "distinct (map fst kw1)" and "distinct (map fst kw2)" and "set kw1 = set kw2"
  shows "(isl (hash_inputs fs kw1 (class_traits i) (cls_str i))
            \<longleftrightarrow> isl (hash_inputs fs kw2 (class_traits i) (cls_str i)))
    \<and> (\<forall>r1. hash_inputs fs kw1 (class_traits i) (cls_str i) = Inr r1
          \<longrightarrow> (\<exists>r2. hash_inputs fs kw2 (class_traits i) (cls_str i) = Inr r2
                 \<and> map_of r1 = map_of r2))
    \<and> ((\<forall>d d'. map_of d = map_of d' \<longrightarrow> pickle_dumps d = pickle_dumps d')
          \<longrightarrow> (\<forall>name. call_name pickle_dumps md5_hexdigest fs i kw1 = Inr name
                 \<longrightarrow> call_name pickle_dumps md5_hexdigest fs i kw2 = Inr name))"
proof -
  let ?h1 = "hash_inputs fs kw1 (class_traits i) (cls_str i)"
  let ?h2 = "hash_inputs fs kw2 (class_traits i) (cls_str i)"
  from hash_inputs_order [OF assms]
  have a: "isl ?h1 \<longleftrightarrow> isl ?h2"
    and b: "\<forall>r1. ?h1 = Inr r1 \<longrightarrow> (\<exists>r2. ?h2 = Inr r2 \<and> map_of r1 = map_of r2)"
    by blast+
  have "call_name pickle_dumps md5_hexdigest fs i kw2 = Inr name"
    if ins: "\<forall>d d'. map_of d = map_of d' \<longrightarrow> pickle_dumps d = pickle_dumps d'"
      and n: "call_name pickle_dumps md5_hexdigest fs i kw1 = Inr name" for name
  proof -
    from n obtain r1 where r1: "?h1 = Inr r1"
      and nm: "name = node_name pickle_dumps md5_hexdigest i r1"
      by (auto simp: call_name_def split: sum.splits)
    from b r1 obtain r2 where r2: "?h2 = Inr r2" and m: "map_of r1 = map_of r2" by blast
    from ins m have "pickle_dumps r1 = pickle_dumps r2" by blast
    with nm r2 show ?thesis by (simp add: call_name_def node_name_def)
  qed
  with a b show ?thesis by blast
qed

theorem cache_key_order_witness:
  "distinct (map fst [(''dimension'', Str ''t''), (''in_files'', PList [Str ''a.nii'', Str ''b.nii''])])
   \<and> distinct (map fst [(''in_files'', PList [Str ''a.nii'', Str ''b.nii'']), (''dimension'', Str ''t'')])
   \<and> set [(''dimension'', Str ''t''), (''in_files'', PList [Str ''a.nii'', Str ''b.nii''])]
       = set [(''in_files'', PList [Str ''a.nii'', Str ''b.nii'']), (''dimension'', Str ''t'')]
   \<and> call_name (\<lambda>d. case map_of d ''dimension'' of Some (Str x) \<Rightarrow> x | _ \<Rightarrow> ''?'') rev Map.empty
        \<lparr>cls_module = ''nipype.interfaces.fsl'', cls_name = ''Merge'', cls_str = ''Merge'',
         class_traits = [''dimension'' \<mapsto> Other, ''in_files'' \<mapsto> List (File False)]\<rparr>
        [(''dimension'', Str ''t''), (''in_files'', PList [Str ''a.nii'', Str ''b.nii''])]
       = Inr ''nipype-interfaces-fsl-Merge_t''
   \<and> call_name (\<lambda>d. case map_of d ''dimension'' of Some (Str x) \<Rightarrow> x | _ \<Rightarrow> ''?'') rev Map.empty
        \<lparr>cls_module = ''nipype.interfaces.fsl'', cls_name = ''Merge'', cls_str = ''Merge'',
         class_traits = [''dimension'' \<mapsto> Other, ''in_files'' \<mapsto> List (File False)]\<rparr>
        [(''in_files'', PList [Str ''a.nii'', Str ''b.nii'']), (''dimension'', Str ''t'')]
       = Inr ''nipype-interfaces-fsl-Merge_t''"
proof -
  let ?pd = "\<lambda>d. case map_of d ''dimension'' of Some (Str x) \<Rightarrow> x | _ \<Rightarrow> ''?''"
  let ?i = "\<lparr>cls_module = ''nipype.interfaces.fsl'', cls_name = ''Merge'', cls_str = ''Merge'',
         class_traits = [''dimension'' \<mapsto> Other, ''in_files'' \<mapsto> List (File False)]\<rparr>"
  have n: "call_name ?pd rev Map.empty ?i
        [(''dimension'', Str ''t''), (''in_files'', PList [Str ''a.nii'', Str ''b.nii''])]
       = Inr ''nipype-interfaces-fsl-Merge_t''"
    by (simp add: call_name_def hash_inputs_def hash_file_def node_name_def replace_dots_def)
  have d1: "distinct (map fst [(''dimension'', Str ''t''), (''in_files'', PList [Str ''a.nii'', Str ''b.nii''])])"
    and d2: "distinct (map fst [(''in_files'', PList [Str ''a.nii'', Str ''b.nii'']), (''dimension'', Str ''t'')])"
    and e: "set [(''dimension'', Str ''t''), (''in_files'', PList [Str ''a.nii'', Str ''b.nii''])]
       = set [(''in_files'', PList [Str ''a.nii'', Str ''b.nii'']), (''dimension'', Str ''t'')]"
    by auto
  have ins: "\<forall>d d'. map_of d = map_of d' \<longrightarrow> ?pd d = ?pd d'" by simp
  from cache_key_order [OF d1 d2 e, of Map.empty ?i ?pd rev] ins n
  have "call_name ?pd rev Map.empty ?i
        [(''in_files'', PList [Str ''a.nii'', Str ''b.nii'']), (''dimension'', Str ''t'')]
       = Inr ''nipype-interfaces-fsl-Merge_t''"
    by blast
  with n d1 d2 e show ?thesis by blast
qed

text \<open>
  C4. A path reference that need not exist is fingerprinted by itself; one that must
  exist by the pair of the path and the modification time that \<^verbatim>\<open>os.stat\<close> reports.
  The content of the file is not looked at: rewriting it with the same modification
  time leaves the fingerprint as it is, and a different modification time changes the
  fingerprint of a reference that must exist.
\<close>

theorem path_reference_fingerprint:
  "hash_val fs v (File False) = Inr v
   \<and> (fs p = Some f \<longrightarrow> hash_val fs (Str p) (File True) = Inr (Tuple [Str p, Flt (st_mtime f)]))
   \<and> (fs p = Some f \<longrightarrow>
        hash_val (fs(p \<mapsto> f\<lparr>content := c\<rparr>)) (Str p) (File ex) = hash_val fs (Str p) (File ex))
   \<and> (fs p = Some f \<longrightarrow> m \<noteq> st_mtime f \<longrightarrow>
        hash_val (fs(p \<mapsto> f\<lparr>st_mtime := m\<rparr>)) (Str p) (File True) \<noteq> hash_val fs (Str p) (File True))"
  by (simp add: hash_file_def)

theorem path_reference_fingerprint_witness:
  "[''/data/T1.nii'' \<mapsto> \<lparr>content = ''abc'', st_mtime = 100\<rparr>] ''/data/T1.nii''
      = Some \<lparr>content = ''abc'', st_mtime = 100\<rparr>
   \<and> (101::real) \<noteq> st_mtime \<lparr>content = ''abc'', st_mtime = 100\<rparr>
   \<and> hash_val [''/data/T1.nii'' \<mapsto> \<lparr>content = ''abc'', st_mtime = 100\<rparr>] (Str ''/data/T1.nii'') (File True)
      = Inr (Tuple [Str ''/data/T1.nii'', Flt 100])
   \<and> hash_val [''/data/T1.nii'' \<mapsto> \<lparr>content = ''xyz'', st_mtime = 100\<rparr>] (Str ''/data/T1.nii'') (File True)
      = Inr (Tuple [Str ''/data/T1.nii'', Flt 100])
   \<and> hash_val [''/data/T1.nii'' \<mapsto> \<lparr>content = ''abc'', st_mtime = 101\<rparr>] (Str ''/data/T1.nii'') (File True)
      \<noteq> Inr (Tuple [Str ''/data/T1.nii'', Flt 100])"
  using path_reference_fingerprint [of "[''/data/T1.nii'' \<mapsto> \<lparr>content = ''abc'', st_mtime = 100\<rparr>]"
      "Str ''/data/T1.nii''" "''/data/T1.nii''" "\<lparr>content = ''abc'', st_mtime = 100\<rparr>" "''xyz''" True 101]
  by (simp add: hash_file_def)

text \<open>
  C5, as stated, fails: a list and a tuple with the same elements are two different
  elements, and under a \<^verbatim>\<open>List\<close> of \<^verbatim>\<open>List\<close> both are fingerprinted by the same list, so
  the two orders give the same fingerprint.
\<close>

theorem sequence_fingerprint_counterexample:
  "PList [Num 1] \<noteq> Tuple [Num 1]
   \<and> hash_val Map.empty (PList [PList [Num 1], Tuple [Num 1]]) (List (List Other))
       = hash_val Map.empty (PList [Tuple [Num 1], PList [Num 1]]) (List (List Other))"
  by simp

text \<open>
  C5, amended. The fingerprint of a list is the list of the fingerprints of its
  elements, each made with the inner trait, in the order of the elements; so two
  different elements of the inner kind (where the inner trait is a \<^verbatim>\<open>List\<close>, both are
  lists, and so on inside them), taken in the two orders, give two different
  fingerprints. For an inner trait that is no \<^verbatim>\<open>List\<close> every value is of the inner kind.
\<close>

theorem sequence_fingerprint_ordered:
  "(hash_val fs (PList vs) (List t) = Inr h
      \<longleftrightarrow> (\<exists>hs. h = PList hs \<and> list_all2 (\<lambda>v h. hash_val fs v t = Inr h) vs hs))
   \<and> (conforms f1 t \<longrightarrow> conforms f2 t \<longrightarrow> f1 \<noteq> f2
        \<longrightarrow> hash_val fs (PList [f1, f2]) (List t) = Inr a
        \<longrightarrow> hash_val fs (PList [f2, f1]) (List t) = Inr b
        \<longrightarrow> a \<noteq> b)"
proof (intro conjI impI)
  show "hash_val fs (PList vs) (List t) = Inr h
      \<longleftrightarrow> (\<exists>hs. h = PList hs \<and> list_all2 (\<lambda>v h. hash_val fs v t = Inr h) vs hs)"
  proof -
    have "hash_val fs (PList vs) (List t) = Inr h
        \<longleftrightarrow> (\<exists>hs. h = PList hs \<and> hash_all fs vs t = Inr hs)"
      by (auto split: sum.splits)
    then show ?thesis by (simp only: hash_all_list_all2)
  qed
next
  assume c1: "conforms f1 t" and c2: "conforms f2 t" and ne: "f1 \<noteq> f2"
    and a: "hash_val fs (PList [f1, f2]) (List t) = Inr a"
    and b: "hash_val fs (PList [f2, f1]) (List t) = Inr b"
  from a obtain h1 h2 where h1: "hash_val fs f1 t = Inr h1" and h2: "hash_val fs f2 t = Inr h2"
    and a': "a = PList [h1, h2]"
    by (auto split: sum.splits)
  from b h1 h2 have b': "b = PList [h2, h1]"
    by (auto split: sum.splits)
  from hash_inj(1) [of f1 t fs] c1 c2 h1 h2 ne have "h1 \<noteq> h2" by blast
  with a' b' show "a \<noteq> b" by simp
qed

theorem sequence_fingerprint_ordered_witness:
  "conforms (Str ''a.nii'') (File False) \<and> conforms (Str ''b.nii'') (File False)
   \<and> Str ''a.nii'' \<noteq> Str ''b.nii''
   \<and> hash_val Map.empty (PList [Str ''a.nii'', Str ''b.nii'']) (List (File False))
       = Inr (PList [Str ''a.nii'', Str ''b.nii''])
   \<and> hash_val Map.empty (PList [Str ''b.nii'', Str ''a.nii'']) (List (File False))
       = Inr (PList [Str ''b.nii'', Str ''a.nii''])
   \<and> PList [Str ''a.nii'', Str ''b.nii''] \<noteq> PList [Str ''b.nii'', Str ''a.nii'']"
  using sequence_fingerprint_ordered [of Map.empty "[Str ''a.nii'', Str ''b.nii'']" "File False"
      "PList [Str ''a.nii'', Str ''b.nii'']" "Str ''a.nii''" "Str ''b.nii''"
      "PList [Str ''a.nii'', Str ''b.nii'']" "PList [Str ''b.nii'', Str ''a.nii'']"]
  by (simp add: hash_file_def)

text \<open>
  C10. The check of \<^verbatim>\<open>base_dir\<close> in \<^verbatim>\<open>PipeFunc.__init__\<close> asks for a path that does
  not exist and is a directory, which no path is: with an interface class, the
  construction succeeds whatever the disk holds at \<^verbatim>\<open>base_dir\<close>.
\<close>

theorem PipeFunc_init_base_dir_check_vacuous:
  "\<not> (\<not> os_path_exists obj \<and> os_path_isdir obj)
   \<and> PipeFunc_init (Some i) dir obj cb = Inr \<lparr>interface = i, base_dir = dir, callback = cb\<rparr>
   \<and> PipeFunc_init (Some i) dir obj cb \<noteq> Inl (ValueError ''base_dir should be an existing directory'')"
  by (simp add: PipeFunc_init_def os_path_exists_def os_path_isdir_def split: option.splits)

text \<open>
  C3, as stated, fails: every name is declared, and \<^verbatim>\<open>hash_inputs\<close> raises all the same,
  since the file that must exist is not there for \<^verbatim>\<open>os.stat\<close>.
\<close>

theorem hash_inputs_missing_file_counterexample:
  "[''in_file'' \<mapsto> File True] ''in_file'' \<noteq> None
   \<and> hash_inputs Map.empty [(''in_file'', Str ''/data/missing.nii'')] [''in_file'' \<mapsto> File True]
        ''Threshold'' = Inl (OSError ''/data/missing.nii'')"
  by (simp add: hash_inputs_def hash_file_def)

text \<open>
  C3, amended. \<^verbatim>\<open>hash_inputs\<close> returns exactly when every name is declared and every
  value can be fingerprinted with its trait (a file that must exist is there, a list
  can be iterated); it then returns a fingerprint for each input. When a name is not
  declared and the inputs walked before it can be fingerprinted, it raises the
  \<^verbatim>\<open>ValueError\<close> that names this input, \<^verbatim>\<open>Invalid parameter <name> for <function>\<close>; and a
  \<^verbatim>\<open>ValueError\<close> that it raises always names an input that is not declared. Whenever a
  name is not declared, the call of the \<^verbatim>\<open>PipeFunc\<close> raises before the node is run: the
  disk is as it was.
\<close>

theorem hash_inputs_succeeds_iff:
  "((\<exists>res. hash_inputs fs inputs traits fn = Inr res)
      \<longleftrightarrow> (\<forall>(n, v) \<in> set inputs. \<exists>t. traits n = Some t \<and> hashable fs v t))
   \<and> (\<forall>res. hash_inputs fs inputs traits fn = Inr res \<longrightarrow>
         fst ` set res = fst ` set inputs
         \<and> (distinct (map fst inputs) \<longrightarrow>
              (\<forall>(n, v) \<in> set inputs. \<exists>t h. traits n = Some t \<and> hash_val fs v t = Inr h
                 \<and> map_of res n = Some h)))
   \<and> (\<forall>pre n v post. inputs = pre @ (n, v) # post \<longrightarrow> traits n = None
         \<longrightarrow> (\<forall>(m, w) \<in> set pre. \<exists>t. traits m = Some t \<and> hashable fs w t)
         \<longrightarrow> hash_inputs fs inputs traits fn
               = Inl (ValueError (''Invalid parameter '' @ n @ '' for '' @ fn)))
   \<and> (\<forall>m. hash_inputs fs inputs traits fn = Inl (ValueError m) \<longrightarrow>
         (\<exists>n \<in> fst ` set inputs. traits n = None
            \<and> m = ''Invalid parameter '' @ n @ '' for '' @ fn))
   \<and> ((\<exists>n \<in> fst ` set inputs. class_traits (interface self) n = None) \<longrightarrow>
         (\<exists>e. PipeFunc_call inputs_set pickle_dumps md5_hexdigest node_run fs self inputs rootd
                = (Inl e, rootd)))"
proof (intro conjI)
  show "(\<exists>res. hash_inputs fs inputs traits fn = Inr res)
      \<longleftrightarrow> (\<forall>(n, v) \<in> set inputs. \<exists>t. traits n = Some t \<and> hashable fs v t)"
  proof
    assume ok: "\<exists>res. hash_inputs fs inputs traits fn = Inr res"
    show "\<forall>(n, v) \<in> set inputs. \<exists>t. traits n = Some t \<and> hashable fs v t"
    proof (rule ccontr)
      assume "\<not> (\<forall>(n, v) \<in> set inputs. \<exists>t. traits n = Some t \<and> hashable fs v t)"
      then have "\<exists>(n, v) \<in> set inputs. \<forall>t. traits n = Some t \<longrightarrow> \<not> hashable fs v t" by auto
      from loop_fail [OF this, of fn "[]"] ok show False
        by (auto simp: hash_inputs_def)
    qed
  next
    assume "\<forall>(n, v) \<in> set inputs. \<exists>t. traits n = Some t \<and> hashable fs v t"
    from loop_ok [OF this, of fn "[]"] show "\<exists>res. hash_inputs fs inputs traits fn = Inr res"
      by (auto simp: hash_inputs_def)
  qed
next
  show "\<forall>res. hash_inputs fs inputs traits fn = Inr res \<longrightarrow>
         fst ` set res = fst ` set inputs
         \<and> (distinct (map fst inputs) \<longrightarrow>
              (\<forall>(n, v) \<in> set inputs. \<exists>t h. traits n = Some t \<and> hash_val fs v t = Inr h
                 \<and> map_of res n = Some h))"
  proof (intro allI impI)
    fix res
    assume r: "hash_inputs fs inputs traits fn = Inr res"
    have "\<forall>(n, v) \<in> set inputs. \<exists>t. traits n = Some t \<and> hashable fs v t"
    proof (rule ccontr)
      assume "\<not> (\<forall>(n, v) \<in> set inputs. \<exists>t. traits n = Some t \<and> hashable fs v t)"
      then have "\<exists>(n, v) \<in> set inputs. \<forall>t. traits n = Some t \<longrightarrow> \<not> hashable fs v t" by auto
      from loop_fail [OF this, of fn "[]"] r show False
        by (auto simp: hash_inputs_def)
    qed
    from loop_ok [OF this, of fn "[]"] r
    show "fst ` set res = fst ` set inputs
         \<and> (distinct (map fst inputs) \<longrightarrow>
              (\<forall>(n, v) \<in> set inputs. \<exists>t h. traits n = Some t \<and> hash_val fs v t = Inr h
                 \<and> map_of res n = Some h))"
      by (auto simp: hash_inputs_def)
  qed
next
  show "\<forall>pre n v post. inputs = pre @ (n, v) # post \<longrightarrow> traits n = None
         \<longrightarrow> (\<forall>(m, w) \<in> set pre. \<exists>t. traits m = Some t \<and> hashable fs w t)
         \<longrightarrow> hash_inputs fs inputs traits fn
               = Inl (ValueError (''Invalid parameter '' @ n @ '' for '' @ fn))"
    using loop_first_undeclared [of traits _ _ fs fn _ _ "[]"] by (simp add: hash_inputs_def)
next
  show "\<forall>m. hash_inputs fs inputs traits fn = Inl (ValueError m) \<longrightarrow>
         (\<exists>n \<in> fst ` set inputs. traits n = None
            \<and> m = ''Invalid parameter '' @ n @ '' for '' @ fn)"
    using loop_value_error [of fs traits fn inputs "[]"] by (simp add: hash_inputs_def)
next
  show "(\<exists>n \<in> fst ` set inputs. class_traits (interface self) n = None) \<longrightarrow>
         (\<exists>e. PipeFunc_call inputs_set pickle_dumps md5_hexdigest node_run fs self inputs rootd
                = (Inl e, rootd))"
  proof
    assume "\<exists>n \<in> fst ` set inputs. class_traits (interface self) n = None"
    then have "\<exists>(n, v) \<in> set inputs. \<forall>t. class_traits (interface self) n = Some t \<longrightarrow> \<not> hashable fs v t"
      by force
    from loop_fail [OF this, of "cls_str (interface self)" "[]"]
    obtain e where "hash_inputs fs inputs (class_traits (interface self)) (cls_str (interface self)) = Inl e"
      by (auto simp: hash_inputs_def isl_def)
    then show "\<exists>e. PipeFunc_call inputs_set pickle_dumps md5_hexdigest node_run fs self inputs rootd
                = (Inl e, rootd)"
      by (simp add: PipeFunc_call_def call_name_def split: option.splits)
  qed
qed

theorem hash_inputs_succeeds_iff_witness:
  "hashable [''/data/T1.nii'' \<mapsto> \<lparr>content = ''abc'', st_mtime = 100\<rparr>] (Str ''/data/T1.nii'') (File True)
   \<and> [''in_file'' \<mapsto> File True, ''thresh'' \<mapsto> Other] ''bogus'' = None
   \<and> hash_inputs [''/data/T1.nii'' \<mapsto> \<lparr>content = ''abc'', st_mtime = 100\<rparr>]
        [(''in_file'', Str ''/data/T1.nii''), (''bogus'', Num 5)]
        [''in_file'' \<mapsto> File True, ''thresh'' \<mapsto> Other] ''Threshold''
       = Inl (ValueError ''Invalid parameter bogus for Threshold'')
   \<and> hash_inputs [''/data/T1.nii'' \<mapsto> \<lparr>content = ''abc'', st_mtime = 100\<rparr>]
        [(''in_file'', Str ''/data/T1.nii''), (''thresh'', Num 5)]
        [''in_file'' \<mapsto> File True, ''thresh'' \<mapsto> Other] ''Threshold''
       = Inr [(''in_file'', Tuple [Str ''/data/T1.nii'', Flt 100]), (''thresh'', Num 5)]"
proof -
  let ?fs = "[''/data/T1.nii'' \<mapsto> \<lparr>content = ''abc'', st_mtime = 100\<rparr>]"
  let ?tr = "[''in_file'' \<mapsto> File True, ''thresh'' \<mapsto> Other]"
  have h: "hashable ?fs (Str ''/data/T1.nii'') (File True)" by simp
  have u: "?tr ''bogus'' = None" by simp
  have pre: "\<forall>(m, w) \<in> set [(''in_file'', Str ''/data/T1.nii'')]. \<exists>t. ?tr m = Some t \<and> hashable ?fs w t"
    by simp
  have sp: "[(''in_file'', Str ''/data/T1.nii''), (''bogus'', Num 5)]
      = [(''in_file'', Str ''/data/T1.nii'')] @ (''bogus'', Num 5) # []" by simp
  note t = hash_inputs_succeeds_iff [of ?fs "[(''in_file'', Str ''/data/T1.nii''), (''bogus'', Num 5)]"
      ?tr "''Threshold''"]
  from t sp u pre
  have e: "hash_inputs ?fs [(''in_file'', Str ''/data/T1.nii''), (''bogus'', Num 5)] ?tr ''Threshold''
      = Inl (ValueError (''Invalid parameter '' @ ''bogus'' @ '' for '' @ ''Threshold''))"
    by blast
  have ok: "hash_inputs ?fs [(''in_file'', Str ''/data/T1.nii''), (''thresh'', Num 5)] ?tr ''Threshold''
       = Inr [(''in_file'', Tuple [Str ''/data/T1.nii'', Flt 100]), (''thresh'', Num 5)]"
    by (simp add: hash_inputs_def hash_file_def)
  from h u e ok show ?thesis by simp
qed

section \<open>Properties of the operations on the disk\<close>

lemma child_open_w:
  "open_w n d = Inr d' \<Longrightarrow> child d' k = (if k = n then Some (RegFile []) else child d k)"
  by (cases d) (auto simp: update_conv' split: option.splits node.splits)

lemma child_open_a_write:
  "open_a_write n s d = Inr d' \<Longrightarrow>
   child d' k = (if k = n then Some (RegFile ((case child d n of Some (RegFile c) \<Rightarrow> c | _ \<Rightarrow> []) @ s))
                 else child d k)"
  by (cases d) (auto simp: update_conv' split: option.splits node.splits)

lemma child_try_mkdir:
  "child (try_mkdir n d) k =
     (if k = n \<and> child d n = None \<and> (\<exists>cs. d = Directory cs) then Some (Directory []) else child d k)"
  by (cases d) (auto simp: map_add_def split: option.splits)

lemma child_in_child:
  "in_child n f d = Inr d' \<Longrightarrow>
   \<exists>c c'. child d n = Some c \<and> f c = Inr c' \<and> child d' k = (if k = n then Some c' else child d k)"
  by (cases d) (auto simp: update_conv' split: option.splits sum.splits)

lemma Memory_init_log_current:
  assumes "Memory_init abs_dir parent = Inr (dir, rootd)"
  shows "child rootd ''log.current'' = Some (RegFile [])"
proof -
  define obj where "obj = (case parent of None \<Rightarrow> None | Some p \<Rightarrow> child p ''nipype_mem'')"
  show ?thesis
  proof (cases "os_path_exists obj")
    case False
    with assms have "rootd = Directory [(''log.current'', RegFile [])]"
      by (simp add: Memory_init_def Let_def obj_def split: if_splits)
    then show ?thesis by simp
  next
    case True
    with assms have "open_w ''log.current'' (the obj) = Inr rootd"
      by (simp add: Memory_init_def Let_def obj_def split: if_splits sum.splits)
    from child_open_w [OF this] show ?thesis by simp
  qed
qed

lemma digit_char_cases:
  "d < 10 \<Longrightarrow> digit_char d \<in> set ''0123456789''"
  unfolding digit_char_def by (rule nth_mem) simp

lemma set_digits: "set (digits n) \<subseteq> set ''0123456789''"
proof (induction n rule: digits.induct)
  case (1 n)
  show ?case
  proof (cases "n < 10")
    case True
    with digit_char_cases [of n] show ?thesis by (subst digits.simps) simp
  next
    case False
    have "n mod 10 < 10" by simp
    from digit_char_cases [OF this] 1 [OF False] False show ?thesis
      by (subst digits.simps) simp
  qed
qed


lemma fmt_i_chars: "set (fmt_i y) \<subseteq> set ''-0123456789''"
proof (cases "y < 0")
  case True
  have "set (digits (nat (- y))) \<subseteq> set ''0123456789''" by (rule set_digits)
  then have "set (digits (nat (- y))) \<subseteq> set ''-0123456789''" by (simp add: subset_insertI2)
  with True show ?thesis by (simp add: fmt_i_def)
next
  case False
  have "set (digits (nat y)) \<subseteq> set ''0123456789''" by (rule set_digits)
  then have "set (digits (nat y)) \<subseteq> set ''-0123456789''" by (simp add: subset_insertI2)
  with False show ?thesis by (simp add: fmt_i_def)
qed

lemma year_dir_not_current: "''log.'' @ fmt_i y \<noteq> ''log.current''"
proof
  assume "''log.'' @ fmt_i y = ''log.current''"
  then have "fmt_i y = ''current''" by simp
  then have "CHR ''c'' \<in> set (fmt_i y)" by simp
  with fmt_i_chars [of y] have "CHR ''c'' \<in> set ''-0123456789''" by (rule subsetD)
  then show False by simp
qed

lemma in_child_total:
  "in_child n (\<lambda>x. Inr (g x)) d = Inr d' \<Longrightarrow>
     child d' k = (if k = n then map_option g (child d n) else child d k)"
  by (cases d) (auto simp: update_conv' split: option.splits)

lemma in_child_total_fail:
  "in_child n (\<lambda>x. Inr (g x)) d = Inl e \<Longrightarrow> child d n = None"
  by (cases d) (auto split: option.splits)

lemma open_a_write_dir: "open_a_write n s d = Inr d' \<Longrightarrow> \<exists>cs. d' = Directory cs"
  by (cases d) (auto split: option.splits node.splits)

lemma log_name_effect:
  assumes ok: "log_name t name rootd = (Inr (), rootd')"
  shows "child rootd' ''log.current''
           = Some (RegFile (file_text (child rootd ''log.current'') @ name @ [CHR 0x0A]))"
    and "lookup3 rootd' (day_log (tm_year t) (tm_mon t) (tm_mday t))
           = Some (RegFile (file_text (lookup3 rootd (day_log (tm_year t) (tm_mon t) (tm_mday t)))
                              @ name @ [CHR 0x0A]))"
    and "\<forall>n. n \<noteq> ''log.current'' \<and> n \<noteq> ''log.'' @ fmt_i (tm_year t) \<longrightarrow> child rootd' n = child rootd n"
proof -
  let ?Y = "''log.'' @ fmt_i (tm_year t)"
  let ?M = "fmt_02i (tm_mon t)"
  let ?D = "fmt_02i (tm_mday t) @ ''.log''"
  let ?s = "name @ [CHR 0x0A]"
  from ok obtain r1 where r1: "open_a_write ''log.current'' ?s rootd = Inr r1"
    by (auto simp: log_name_def split: sum.splits)
  define r2 where "r2 = try_mkdir ?Y r1"
  define r3 where "r3 = (case in_child ?Y (\<lambda>d. Inr (try_mkdir ?M d)) r2 of Inl e \<Rightarrow> r2 | Inr r \<Rightarrow> r)"
  from ok r1 have r4: "in_child ?Y (in_child ?M (open_a_write ?D ?s)) r3 = Inr rootd'"
    by (auto simp: log_name_def Let_def r2_def r3_def split: sum.splits)
  from child_in_child [OF r4, of ?Y] obtain y3 y4 where
    y3: "child r3 ?Y = Some y3" and y4: "in_child ?M (open_a_write ?D ?s) y3 = Inr y4"
    and cy4: "child rootd' ?Y = Some y4"
    by auto
  from child_in_child [OF y4, of ?M] obtain m3 m4 where
    m3: "child y3 ?M = Some m3" and m4: "open_a_write ?D ?s m3 = Inr m4"
    and cm4: "child y4 ?M = Some m4"
    by auto
  from child_open_a_write [OF m4, of ?D]
  have d4: "child m4 ?D = Some (RegFile (file_text (child m3 ?D) @ ?s))"
    by (simp add: file_text_def)
  have other: "child rootd' n = child r3 n" if "n \<noteq> ?Y" for n
    using child_in_child [OF r4, of n] that by auto
  have r3_other: "child r3 n = child r2 n" if "n \<noteq> ?Y" for n
    using that by (auto simp: r3_def split: sum.splits dest: child_in_child [where k = n])
  have r2_other: "child r2 n = child r1 n" if "n \<noteq> ?Y" for n
    using that by (simp add: r2_def child_try_mkdir)
  have r1_other: "child r1 n = child rootd n" if "n \<noteq> ''log.current''" for n
    using child_open_a_write [OF r1, of n] that by simp
  have cur: "child r1 ''log.current'' = Some (RegFile (file_text (child rootd ''log.current'') @ ?s))"
    using child_open_a_write [OF r1, of "''log.current''"] by (simp add: file_text_def)
  from year_dir_not_current [of "tm_year t"] have ne: "''log.current'' \<noteq> ?Y" by simp
  from other [OF ne] r3_other [OF ne] r2_other [OF ne] cur
  show "child rootd' ''log.current''
           = Some (RegFile (file_text (child rootd ''log.current'') @ name @ [CHR 0x0A]))"
    by simp
  show "\<forall>n. n \<noteq> ''log.current'' \<and> n \<noteq> ?Y \<longrightarrow> child rootd' n = child rootd n"
    using other r3_other r2_other r1_other by simp
  \<comment> \<open>the day log: what the directories held before, if they were there\<close>
  have y1: "child r1 ?Y = child rootd ?Y"
    using r1_other [of ?Y] ne by simp
  from open_a_write_dir [OF r1] have dir1: "\<exists>cs. r1 = Directory cs" .
  have y2: "child r2 ?Y = (case child rootd ?Y of None \<Rightarrow> Some (Directory []) | Some y \<Rightarrow> Some y)"
    using dir1 y1 by (simp add: r2_def child_try_mkdir split: option.splits)
  have y3': "child r3 ?Y = map_option (try_mkdir ?M) (child r2 ?Y)"
  proof (cases "in_child ?Y (\<lambda>d. Inr (try_mkdir ?M d)) r2")
    case (Inl e)
    from in_child_total_fail [OF Inl] Inl show ?thesis by (simp add: r3_def)
  next
    case (Inr r)
    from in_child_total [OF Inr, of ?Y] Inr show ?thesis by (simp add: r3_def)
  qed
  have old: "file_text (child m3 ?D) = file_text (lookup3 rootd (day_log (tm_year t) (tm_mon t) (tm_mday t)))"
  proof (cases "child rootd ?Y")
    case None
    with y2 y3' y3 have "y3 = try_mkdir ?M (Directory [])" by simp
    with m3 have "m3 = Directory []" by simp
    with None show ?thesis by (simp add: lookup3_def day_log_def file_text_def)
  next
    case (Some y0)
    with y2 y3' y3 have y3'': "y3 = try_mkdir ?M y0" by simp
    show ?thesis
    proof (cases "child y0 ?M")
      case None
      with y3'' m3 have "m3 = Directory []" by (simp add: child_try_mkdir split: if_splits)
      with Some None show ?thesis by (simp add: lookup3_def day_log_def file_text_def)
    next
      case (Some m0)
      with y3'' m3 have "m3 = m0" by (simp add: child_try_mkdir)
      with \<open>child rootd ?Y = Some y0\<close> Some show ?thesis by (simp add: lookup3_def day_log_def)
    qed
  qed
  from cy4 cm4 d4 old
  show "lookup3 rootd' (day_log (tm_year t) (tm_mon t) (tm_mday t))
           = Some (RegFile (file_text (lookup3 rootd (day_log (tm_year t) (tm_mon t) (tm_mday t)))
                              @ name @ [CHR 0x0A]))"
    by (simp add: lookup3_def day_log_def)
qed

lemma isdir_iff: "os_path_isdir (Some d) \<longleftrightarrow> (\<exists>cs. d = Directory cs)"
  by (cases d) (simp_all add: os_path_isdir_def)

lemma open_a_write_ok:
  "os_path_isdir (Some d) \<Longrightarrow> \<not> os_path_isdir (child d n) \<Longrightarrow> \<exists>d'. open_a_write n s d = Inr d'"
  by (cases d) (auto simp: os_path_isdir_def split: option.splits node.splits)

lemma in_child_ok:
  "os_path_isdir (Some d) \<Longrightarrow> child d n = Some c \<Longrightarrow> f c = Inr c' \<Longrightarrow> \<exists>d'. in_child n f d = Inr d'"
  by (cases d) (auto simp: os_path_isdir_def)

lemma try_mkdir_isdir: "os_path_isdir (Some (try_mkdir n d)) = os_path_isdir (Some d)"
  by (cases d) (auto simp: os_path_isdir_def)

lemma log_name_succeeds:
  assumes "can_log t rootd"
  shows "\<exists>rootd'. log_name t name rootd = (Inr (), rootd')"
proof -
  let ?Y = "''log.'' @ fmt_i (tm_year t)"
  let ?M = "fmt_02i (tm_mon t)"
  let ?D = "fmt_02i (tm_mday t) @ ''.log''"
  let ?s = "name @ [CHR 0x0A]"
  from assms have dir: "os_path_isdir (Some rootd)"
    and cur: "\<not> os_path_isdir (child rootd ''log.current'')"
    and yr: "case child rootd ?Y of None \<Rightarrow> True
       | Some yd \<Rightarrow> os_path_isdir (Some yd)
           \<and> (case child yd ?M of None \<Rightarrow> True
               | Some md \<Rightarrow> os_path_isdir (Some md) \<and> \<not> os_path_isdir (child md ?D))"
    by (simp_all add: can_log_def day_log_def)
  from open_a_write_ok [OF dir cur] obtain r1 where r1: "open_a_write ''log.current'' ?s rootd = Inr r1"
    by blast
  from open_a_write_dir [OF r1] have dir1: "os_path_isdir (Some r1)" by (simp add: isdir_iff)
  from year_dir_not_current [of "tm_year t"] have ne: "?Y \<noteq> ''log.current''" by simp
  have y1: "child r1 ?Y = child rootd ?Y"
    using child_open_a_write [OF r1, of ?Y] ne by simp
  define r2 where "r2 = try_mkdir ?Y r1"
  define r3 where "r3 = (case in_child ?Y (\<lambda>d. Inr (try_mkdir ?M d)) r2 of Inl e \<Rightarrow> r2 | Inr r \<Rightarrow> r)"
  have dir2: "os_path_isdir (Some r2)" using dir1 by (simp add: r2_def try_mkdir_isdir)
  define y2 where "y2 = (case child rootd ?Y of None \<Rightarrow> Directory [] | Some y \<Rightarrow> y)"
  have cy2: "child r2 ?Y = Some y2"
    using dir1 y1 by (auto simp: r2_def y2_def child_try_mkdir isdir_iff split: option.splits)
  have ydir: "os_path_isdir (Some y2)"
    using yr by (auto simp: y2_def os_path_isdir_def split: option.splits)
  from in_child_ok [of r2 ?Y y2 "\<lambda>d. Inr (try_mkdir ?M d)" "try_mkdir ?M y2", OF dir2 cy2]
  obtain r3' where
    r3': "in_child ?Y (\<lambda>d. Inr (try_mkdir ?M d)) r2 = Inr r3'" by blast
  then have r3eq: "r3 = r3'" by (simp add: r3_def)
  from in_child_total [OF r3', of ?Y] cy2 r3eq have cy3: "child r3 ?Y = Some (try_mkdir ?M y2)" by simp
  have dir3: "os_path_isdir (Some r3)"
    using r3' r3eq dir2 by (cases r2) (auto simp: os_path_isdir_def split: option.splits)
  have y3dir: "os_path_isdir (Some (try_mkdir ?M y2))" using ydir by (simp add: try_mkdir_isdir)
  define m3 where "m3 = (case child y2 ?M of None \<Rightarrow> Directory [] | Some m \<Rightarrow> m)"
  have cm3: "child (try_mkdir ?M y2) ?M = Some m3"
    using ydir by (auto simp: m3_def child_try_mkdir isdir_iff split: option.splits)
  have mdir: "os_path_isdir (Some m3)" and dfile: "\<not> os_path_isdir (child m3 ?D)"
    using yr by (auto simp: m3_def y2_def os_path_isdir_def split: option.splits)
  from open_a_write_ok [OF mdir dfile] obtain m4 where m4: "open_a_write ?D ?s m3 = Inr m4" by blast
  from in_child_ok [of "try_mkdir ?M y2" ?M m3 "open_a_write ?D ?s" m4, OF y3dir cm3 m4] obtain y4 where
    y4: "in_child ?M (open_a_write ?D ?s) (try_mkdir ?M y2) = Inr y4" by blast
  from in_child_ok [of r3 ?Y "try_mkdir ?M y2" "in_child ?M (open_a_write ?D ?s)" y4, OF dir3 cy3 y4]
  obtain r4 where
    r4: "in_child ?Y (in_child ?M (open_a_write ?D ?s)) r3 = Inr r4" by blast
  have "log_name t name rootd =
      (case in_child ?Y (in_child ?M (open_a_write ?D ?s)) r3 of
         Inl e \<Rightarrow> (Inl e, r3) | Inr r \<Rightarrow> (Inr (), r))"
    unfolding log_name_def Let_def r3_def r2_def r1 sum.case by (rule refl)
  with r4 have "log_name t name rootd = (Inr (), r4)"
    by (simp only: sum.case)
  then show ?thesis by blast
qed

lemma py_lines_key:
  "CHR 0x0A \<notin> set k \<Longrightarrow> py_lines (k @ CHR 0x0A # rest) = (k @ [CHR 0x0A]) # py_lines rest"
  by (induction k) auto

lemma py_lines_keys:
  "\<forall>k \<in> set ks. CHR 0x0A \<notin> set k \<Longrightarrow>
   py_lines (concat (map (\<lambda>k. k @ [CHR 0x0A]) ks)) = map (\<lambda>k. k @ [CHR 0x0A]) ks"
  by (induction ks) (simp_all add: py_lines_key)

lemma log_names_current:
  "log_names calls rootd = (Inr (), rootd') \<Longrightarrow>
   child rootd' ''log.current'' =
     (if calls = [] then child rootd ''log.current''
      else Some (RegFile (file_text (child rootd ''log.current'')
                   @ concat (map (\<lambda>(t, k). k @ [CHR 0x0A]) calls))))"
proof (induction calls arbitrary: rootd)
  case Nil
  then show ?case by simp
next
  case (Cons c calls)
  obtain t k where c: "c = (t, k)" by (cases c)
  from Cons.prems c obtain r1 where r1: "log_name t k rootd = (Inr (), r1)"
    and rest: "log_names calls r1 = (Inr (), rootd')"
    by (auto split: prod.splits sum.splits)
  from log_name_effect(1) [OF r1]
  have cur: "child r1 ''log.current'' = Some (RegFile (file_text (child rootd ''log.current'') @ k @ [CHR 0x0A]))" .
  from Cons.IH [OF rest] cur c show ?case by (simp add: file_text_def)
qed

section \<open>Properties of the garbage collection\<close>












































section \<open>The claims on the usage logs\<close>

text \<open>
  C9, as stated, fails: the cache root is absent, and the construction does not make
  it but raises \<^verbatim>\<open>OSError\<close>, since the directory it should be made in is not there.
\<close>

theorem Memory_init_no_parent_counterexample:
  "Memory_init ''/no/such/parent'' None = Inl (OSError ''/no/such/parent/nipype_mem'')"
  by (simp add: Memory_init_def os_path_exists_def os_path_isdir_def os_path_join_def
      startswith_def endswith_def)

text \<open>
  C9, amended. Constructing a \<^verbatim>\<open>Memory\<close> makes the cache root when it is absent and
  the directory it lies in exists (it raises \<^verbatim>\<open>OSError\<close> when that one is missing or no
  directory), and raises \<^verbatim>\<open>ValueError\<close> when the path of the cache root is a regular
  file. When the construction succeeds, \<^verbatim>\<open>log.current\<close> is an empty file and every other
  entry of the cache root is what it was before.
\<close>

theorem Memory_init_root:
  "(os_path_isdir (Some p) \<longrightarrow> child p ''nipype_mem'' = None \<longrightarrow>
      Memory_init abs_dir (Some p)
        = Inr (os_path_join abs_dir ''nipype_mem'', Directory [(''log.current'', RegFile [])]))
   \<and> (\<not> os_path_isdir parent \<longrightarrow>
        Memory_init abs_dir parent = Inl (OSError (os_path_join abs_dir ''nipype_mem'')))
   \<and> (child p ''nipype_mem'' = Some (RegFile c) \<longrightarrow>
        Memory_init abs_dir (Some p) = Inl (ValueError ''base_dir should be a directory''))
   \<and> (Memory_init abs_dir parent = Inr (dir, rootd) \<longrightarrow>
        dir = os_path_join abs_dir ''nipype_mem''
        \<and> (\<exists>cs. rootd = Directory cs)
        \<and> child rootd ''log.current'' = Some (RegFile [])
        \<and> (\<forall>n. n \<noteq> ''log.current'' \<longrightarrow>
              child rootd n
                = (case parent of
                     None \<Rightarrow> None
                   | Some q \<Rightarrow> (case child q ''nipype_mem'' of None \<Rightarrow> None | Some d \<Rightarrow> child d n))))"
proof (intro conjI impI)
  assume "os_path_isdir (Some p)" and "child p ''nipype_mem'' = None"
  then show "Memory_init abs_dir (Some p)
        = Inr (os_path_join abs_dir ''nipype_mem'', Directory [(''log.current'', RegFile [])])"
    by (simp add: Memory_init_def os_path_exists_def)
next
  assume np: "\<not> os_path_isdir parent"
  have "(case parent of None \<Rightarrow> None | Some p \<Rightarrow> child p ''nipype_mem'') = None"
  proof (cases parent)
    case None
    then show ?thesis by simp
  next
    case (Some q)
    with np show ?thesis by (cases q) (simp_all add: os_path_isdir_def)
  qed
  with np show "Memory_init abs_dir parent = Inl (OSError (os_path_join abs_dir ''nipype_mem''))"
    by (simp add: Memory_init_def os_path_exists_def)
next
  assume "child p ''nipype_mem'' = Some (RegFile c)"
  then show "Memory_init abs_dir (Some p) = Inl (ValueError ''base_dir should be a directory'')"
    by (simp add: Memory_init_def os_path_exists_def os_path_isdir_def)
next
  assume ok: "Memory_init abs_dir parent = Inr (dir, rootd)"
  define obj where "obj = (case parent of None \<Rightarrow> None | Some p \<Rightarrow> child p ''nipype_mem'')"
  from ok show "dir = os_path_join abs_dir ''nipype_mem''"
    by (auto simp: Memory_init_def Let_def split: if_splits sum.splits)
  from ok obtain d where w: "open_w ''log.current'' d = Inr rootd"
    and d: "d = (case obj of None \<Rightarrow> Directory [] | Some x \<Rightarrow> x)"
    by (auto simp: Memory_init_def Let_def os_path_exists_def obj_def split: if_splits sum.splits)
  from w show "\<exists>cs. rootd = Directory cs"
    by (cases d) (auto split: option.splits node.splits)
  from child_open_w [OF w] show "child rootd ''log.current'' = Some (RegFile [])"
    by simp
  have "\<forall>n. n \<noteq> ''log.current'' \<longrightarrow> child rootd n = (case obj of None \<Rightarrow> None | Some d \<Rightarrow> child d n)"
    using child_open_w [OF w] d by (auto split: option.splits)
  then show "\<forall>n. n \<noteq> ''log.current'' \<longrightarrow>
              child rootd n
                = (case parent of
                     None \<Rightarrow> None
                   | Some q \<Rightarrow> (case child q ''nipype_mem'' of None \<Rightarrow> None | Some d \<Rightarrow> child d n))"
    by (simp add: obj_def split: option.splits)
qed

theorem Memory_init_root_witness:
  "os_path_isdir (Some (Directory [(''data'', Directory [])]))
   \<and> child (Directory [(''data'', Directory [])]) ''nipype_mem'' = None
   \<and> Memory_init ''/work'' (Some (Directory [(''data'', Directory [])]))
       = Inr (''/work/nipype_mem'', Directory [(''log.current'', RegFile [])])
   \<and> Memory_init ''/work''
     (Some (Directory [(''nipype_mem'',
        Directory [(''log.current'', RegFile ''old-key''), (''fsl-Merge_0a1b'', Directory []),
                   (''log.2011'', Directory [(''03'', Directory [(''07.log'', RegFile ''k'')])])])]))
     = Inr (''/work/nipype_mem'',
         Directory [(''log.current'', RegFile []), (''fsl-Merge_0a1b'', Directory []),
                    (''log.2011'', Directory [(''03'', Directory [(''07.log'', RegFile ''k'')])])])"
proof -
  have a: "os_path_isdir (Some (Directory [(''data'', Directory [])]))"
    by (simp add: os_path_isdir_def)
  have b: "child (Directory [(''data'', Directory [])]) ''nipype_mem'' = None" by simp
  have j: "os_path_join ''/work'' ''nipype_mem'' = ''/work/nipype_mem''"
    by (simp add: os_path_join_def startswith_def endswith_def)
  from Memory_init_root [of "Directory [(''data'', Directory [])]" "''/work''"] a b j
  have c: "Memory_init ''/work'' (Some (Directory [(''data'', Directory [])]))
       = Inr (''/work/nipype_mem'', Directory [(''log.current'', RegFile [])])"
    by simp
  have i: "Memory_init ''/work''
     (Some (Directory [(''nipype_mem'',
        Directory [(''log.current'', RegFile ''old-key''), (''fsl-Merge_0a1b'', Directory []),
                   (''log.2011'', Directory [(''03'', Directory [(''07.log'', RegFile ''k'')])])])]))
     = Inr (''/work/nipype_mem'',
         Directory [(''log.current'', RegFile []), (''fsl-Merge_0a1b'', Directory []),
                    (''log.2011'', Directory [(''03'', Directory [(''07.log'', RegFile ''k'')])])])"
    by (simp add: Memory_init_def os_path_exists_def os_path_isdir_def j)
  from a b c i show ?thesis by - (intro conjI, assumption+)
qed

text \<open>
  C7. Constructing a \<^verbatim>\<open>Memory\<close> leaves \<^verbatim>\<open>log.current\<close> empty, whatever an earlier
  handle wrote to it. After the keys recorded through the handle (each a single line),
  the file holds these keys, one per line, and reading it back as
  \<^verbatim>\<open>clear_previous_runs\<close> does gives the set of exactly these keys.
\<close>

theorem current_run_log_exact:
  assumes "Memory_init abs_dir parent = Inr (dir, rootd0)"
    and "\<forall>(t, k) \<in> set calls. CHR 0x0A \<notin> set k"
    and "log_names calls rootd0 = (Inr (), rootd)"
  shows "child rootd0 ''log.current'' = Some (RegFile [])
    \<and> child rootd ''log.current'' = Some (RegFile (concat (map (\<lambda>(t, k). k @ [CHR 0x0A]) calls)))
    \<and> read_keys ''log.current'' rootd = Inr (remdups (map snd calls))
    \<and> clear_previous_runs rootd = clear_all_but (remdups (map snd calls)) rootd"
proof -
  from Memory_init_log_current [OF assms(1)]
  have c0: "child rootd0 ''log.current'' = Some (RegFile [])" .
  from log_names_current [OF assms(3)] c0
  have c: "child rootd ''log.current'' = Some (RegFile (concat (map (\<lambda>(t, k). k @ [CHR 0x0A]) calls)))"
    by (simp add: file_text_def)
  have "concat (map (\<lambda>(t, k). k @ [CHR 0x0A]) calls) = concat (map (\<lambda>k. k @ [CHR 0x0A]) (map snd calls))"
    by (induction calls) auto
  moreover from assms(2) have "\<forall>k \<in> set (map snd calls). CHR 0x0A \<notin> set k" by auto
  ultimately have "py_lines (concat (map (\<lambda>(t, k). k @ [CHR 0x0A]) calls))
      = map (\<lambda>k. k @ [CHR 0x0A]) (map snd calls)"
    using py_lines_keys [of "map snd calls"] by simp
  then have "map butlast (py_lines (concat (map (\<lambda>(t, k). k @ [CHR 0x0A]) calls))) = map snd calls"
    by (simp add: comp_def)
  with c have r: "read_keys ''log.current'' rootd = Inr (remdups (map snd calls))"
    by (simp add: read_keys_def)
  then have "clear_previous_runs rootd = clear_all_but (remdups (map snd calls)) rootd"
    by (simp add: clear_previous_runs_def)
  with c0 c r show ?thesis by simp
qed

theorem current_run_log_exact_witness:
  "Memory_init ''/work''
       (Some (Directory [(''nipype_mem'', Directory [(''log.current'', RegFile (''fsl-BET_old'' @ [CHR 0x0A]))])]))
     = Inr (''/work/nipype_mem'', Directory [(''log.current'', RegFile [])])
   \<and> CHR 0x0A \<notin> set ''fsl-Merge_0a1b'' \<and> CHR 0x0A \<notin> set ''fsl-Threshold_77''
   \<and> log_names [(\<lparr>tm_year = 2011, tm_mon = 3, tm_mday = 7\<rparr>, ''fsl-Merge_0a1b''),
                 (\<lparr>tm_year = 2011, tm_mon = 3, tm_mday = 8\<rparr>, ''fsl-Threshold_77'')]
        (Directory [(''log.current'', RegFile [])])
       = (Inr (), Directory [(''log.current'', RegFile (''fsl-Merge_0a1b'' @ [CHR 0x0A] @ ''fsl-Threshold_77'' @ [CHR 0x0A])),
            (''log.2011'', Directory [(''03'', Directory [(''07.log'', RegFile (''fsl-Merge_0a1b'' @ [CHR 0x0A])),
                  (''08.log'', RegFile (''fsl-Threshold_77'' @ [CHR 0x0A]))])])])
   \<and> read_keys ''log.current''
        (Directory [(''log.current'', RegFile (''fsl-Merge_0a1b'' @ [CHR 0x0A] @ ''fsl-Threshold_77'' @ [CHR 0x0A])),
            (''log.2011'', Directory [(''03'', Directory [(''07.log'', RegFile (''fsl-Merge_0a1b'' @ [CHR 0x0A])),
                  (''08.log'', RegFile (''fsl-Threshold_77'' @ [CHR 0x0A]))])])])
       = Inr [''fsl-Merge_0a1b'', ''fsl-Threshold_77'']"
proof -
  have i: "Memory_init ''/work''
       (Some (Directory [(''nipype_mem'', Directory [(''log.current'', RegFile (''fsl-BET_old'' @ [CHR 0x0A]))])]))
     = Inr (''/work/nipype_mem'', Directory [(''log.current'', RegFile [])])"
    by (simp add: Memory_init_def os_path_exists_def os_path_isdir_def os_path_join_def
        startswith_def endswith_def)
  have k: "\<forall>(t, k) \<in> set [(\<lparr>tm_year = 2011, tm_mon = 3, tm_mday = 7\<rparr>, ''fsl-Merge_0a1b''),
                 (\<lparr>tm_year = 2011, tm_mon = 3, tm_mday = 8\<rparr>, ''fsl-Threshold_77'')]. CHR 0x0A \<notin> set k"
    by simp
  have l: "log_names [(\<lparr>tm_year = 2011, tm_mon = 3, tm_mday = 7\<rparr>, ''fsl-Merge_0a1b''),
                 (\<lparr>tm_year = 2011, tm_mon = 3, tm_mday = 8\<rparr>, ''fsl-Threshold_77'')]
        (Directory [(''log.current'', RegFile [])])
       = (Inr (), Directory [(''log.current'', RegFile (''fsl-Merge_0a1b'' @ [CHR 0x0A] @ ''fsl-Threshold_77'' @ [CHR 0x0A])),
            (''log.2011'', Directory [(''03'', Directory [(''07.log'', RegFile (''fsl-Merge_0a1b'' @ [CHR 0x0A])),
                  (''08.log'', RegFile (''fsl-Threshold_77'' @ [CHR 0x0A]))])])])"
    by code_simp
  have r: "read_keys ''log.current''
        (Directory [(''log.current'', RegFile (''fsl-Merge_0a1b'' @ [CHR 0x0A] @ ''fsl-Threshold_77'' @ [CHR 0x0A])),
            (''log.2011'', Directory [(''03'', Directory [(''07.log'', RegFile (''fsl-Merge_0a1b'' @ [CHR 0x0A])),
                  (''08.log'', RegFile (''fsl-Threshold_77'' @ [CHR 0x0A]))])])])
       = Inr [''fsl-Merge_0a1b'', ''fsl-Threshold_77'']"
    using current_run_log_exact [OF i k l] by simp
  have n: "CHR 0x0A \<notin> set ''fsl-Merge_0a1b''" "CHR 0x0A \<notin> set ''fsl-Threshold_77''"
    by simp_all
  from i n l r show ?thesis by - (intro conjI, assumption+)
qed

text \<open>
  C8. A call through a \<^verbatim>\<open>PipeFunc\<close> made by \<^verbatim>\<open>Memory.cache\<close> that returns has passed the
  name of its node to \<^verbatim>\<open>_log_name\<close>, which has appended the name and a newline to
  \<^verbatim>\<open>log.current\<close> and to the log of the day, \<^verbatim>\<open>log.<year>/<month>/<day>.log\<close>; on a disk
  laid out for the logs, with or without the directories of the year and the month,
  the call does return once the node has run. When running the node raises, the call
  raises and leaves the disk as the node left it: nothing is logged.
\<close>

theorem cached_call_reports_usage:
  assumes "callback self = Some (log_name t)"
  shows "(PipeFunc_call inputs_set pickle_dumps md5_hexdigest node_run fs self kwargs rootd
            = (Inr out, rootd') \<longrightarrow>
          (\<exists>name r1. call_name pickle_dumps md5_hexdigest fs (interface self) kwargs = Inr name
             \<and> node_run name rootd = (Inr out, r1)
             \<and> log_name t name r1 = (Inr (), rootd')
             \<and> child rootd' ''log.current''
                 = Some (RegFile (file_text (child r1 ''log.current'') @ name @ [CHR 0x0A]))
             \<and> lookup3 rootd' (day_log (tm_year t) (tm_mon t) (tm_mday t))
                 = Some (RegFile (file_text (lookup3 r1 (day_log (tm_year t) (tm_mon t) (tm_mday t)))
                                   @ name @ [CHR 0x0A]))))
    \<and> (inputs_set kwargs = None
          \<longrightarrow> call_name pickle_dumps md5_hexdigest fs (interface self) kwargs = Inr key
          \<longrightarrow> node_run key rootd = (Inr out, r) \<longrightarrow> can_log t r
          \<longrightarrow> (\<exists>rootd'. PipeFunc_call inputs_set pickle_dumps md5_hexdigest node_run fs self kwargs rootd
                = (Inr out, rootd')))
    \<and> (inputs_set kwargs = None
          \<longrightarrow> call_name pickle_dumps md5_hexdigest fs (interface self) kwargs = Inr key
          \<longrightarrow> node_run key rootd = (Inl e, r)
          \<longrightarrow> PipeFunc_call inputs_set pickle_dumps md5_hexdigest node_run fs self kwargs rootd
                = (Inl e, r))"
proof (intro conjI impI)
  assume ok: "PipeFunc_call inputs_set pickle_dumps md5_hexdigest node_run fs self kwargs rootd
            = (Inr out, rootd')"
  from ok obtain name where n: "call_name pickle_dumps md5_hexdigest fs (interface self) kwargs = Inr name"
    and i: "inputs_set kwargs = None"
    by (auto simp: PipeFunc_call_def split: option.splits sum.splits)
  from ok n i obtain r1 where run: "node_run name rootd = (Inr out, r1)"
    by (auto simp: PipeFunc_call_def split: option.splits sum.splits prod.splits)
  from ok n i run assms have lg: "log_name t name r1 = (Inr (), rootd')"
    by (auto simp: PipeFunc_call_def split: option.splits sum.splits prod.splits)
  from n run lg log_name_effect(1) [OF lg] log_name_effect(2) [OF lg]
  show "\<exists>name r1. call_name pickle_dumps md5_hexdigest fs (interface self) kwargs = Inr name
             \<and> node_run name rootd = (Inr out, r1)
             \<and> log_name t name r1 = (Inr (), rootd')
             \<and> child rootd' ''log.current''
                 = Some (RegFile (file_text (child r1 ''log.current'') @ name @ [CHR 0x0A]))
             \<and> lookup3 rootd' (day_log (tm_year t) (tm_mon t) (tm_mday t))
                 = Some (RegFile (file_text (lookup3 r1 (day_log (tm_year t) (tm_mon t) (tm_mday t)))
                                   @ name @ [CHR 0x0A]))"
    by blast
next
  assume i: "inputs_set kwargs = None"
    and n: "call_name pickle_dumps md5_hexdigest fs (interface self) kwargs = Inr key"
    and run: "node_run key rootd = (Inr out, r)" and lay: "can_log t r"
  from log_name_succeeds [OF lay, of key] obtain r' where "log_name t key r = (Inr (), r')" by blast
  with i n run assms
  show "\<exists>rootd'. PipeFunc_call inputs_set pickle_dumps md5_hexdigest node_run fs self kwargs rootd
                = (Inr out, rootd')"
    by (simp add: PipeFunc_call_def)
next
  assume i: "inputs_set kwargs = None"
    and n: "call_name pickle_dumps md5_hexdigest fs (interface self) kwargs = Inr key"
    and run: "node_run key rootd = (Inl e, r)"
  then show "PipeFunc_call inputs_set pickle_dumps md5_hexdigest node_run fs self kwargs rootd
                = (Inl e, r)"
    by (simp add: PipeFunc_call_def)
qed

theorem cached_call_reports_usage_witness:
  "callback \<lparr>interface = \<lparr>cls_module = ''nipype.interfaces.fsl'', cls_name = ''Merge'', cls_str = ''Merge'',
                 class_traits = [''dimension'' \<mapsto> Other]\<rparr>,
             base_dir = ''/work/nipype_mem'',
             callback = Some (log_name \<lparr>tm_year = 2011, tm_mon = 3, tm_mday = 7\<rparr>)\<rparr>
     = Some (log_name \<lparr>tm_year = 2011, tm_mon = 3, tm_mday = 7\<rparr>)
   \<and> PipeFunc_call (\<lambda>kw. None) (\<lambda>d. ''p'') (\<lambda>s. ''0a1b'') (\<lambda>name r. (Inr name, try_mkdir name r)) Map.empty
        \<lparr>interface = \<lparr>cls_module = ''nipype.interfaces.fsl'', cls_name = ''Merge'', cls_str = ''Merge'',
                 class_traits = [''dimension'' \<mapsto> Other]\<rparr>,
             base_dir = ''/work/nipype_mem'',
             callback = Some (log_name \<lparr>tm_year = 2011, tm_mon = 3, tm_mday = 7\<rparr>)\<rparr>
        [(''dimension'', Str ''t'')] (Directory [(''log.current'', RegFile [])])
      = (Inr ''nipype-interfaces-fsl-Merge_0a1b'',
         Directory [(''log.current'', RegFile (''nipype-interfaces-fsl-Merge_0a1b'' @ [CHR 0x0A])),
           (''nipype-interfaces-fsl-Merge_0a1b'', Directory []),
           (''log.2011'', Directory [(''03'', Directory [(''07.log'',
               RegFile (''nipype-interfaces-fsl-Merge_0a1b'' @ [CHR 0x0A]))])])])
   \<and> lookup3
        (Directory [(''log.current'', RegFile (''nipype-interfaces-fsl-Merge_0a1b'' @ [CHR 0x0A])),
           (''nipype-interfaces-fsl-Merge_0a1b'', Directory []),
           (''log.2011'', Directory [(''03'', Directory [(''07.log'',
               RegFile (''nipype-interfaces-fsl-Merge_0a1b'' @ [CHR 0x0A]))])])])
        (''log.2011'', ''03'', ''07.log'')
      = Some (RegFile (''nipype-interfaces-fsl-Merge_0a1b'' @ [CHR 0x0A]))"
proof -
  let ?self = "\<lparr>interface = \<lparr>cls_module = ''nipype.interfaces.fsl'', cls_name = ''Merge'', cls_str = ''Merge'',
                 class_traits = [''dimension'' \<mapsto> Other]\<rparr>,
             base_dir = ''/work/nipype_mem'',
             callback = Some (log_name \<lparr>tm_year = 2011, tm_mon = 3, tm_mday = 7\<rparr>)\<rparr>"
  have cb: "callback ?self = Some (log_name \<lparr>tm_year = 2011, tm_mon = 3, tm_mday = 7\<rparr>)"
    by simp
  have c: "PipeFunc_call (\<lambda>kw. None) (\<lambda>d. ''p'') (\<lambda>s. ''0a1b'') (\<lambda>name r. (Inr name, try_mkdir name r)) Map.empty
        ?self [(''dimension'', Str ''t'')] (Directory [(''log.current'', RegFile [])])
      = (Inr ''nipype-interfaces-fsl-Merge_0a1b'',
         Directory [(''log.current'', RegFile (''nipype-interfaces-fsl-Merge_0a1b'' @ [CHR 0x0A])),
           (''nipype-interfaces-fsl-Merge_0a1b'', Directory []),
           (''log.2011'', Directory [(''03'', Directory [(''07.log'',
               RegFile (''nipype-interfaces-fsl-Merge_0a1b'' @ [CHR 0x0A]))])])])"
    by code_simp
  note t = cached_call_reports_usage [OF cb, of "\<lambda>kw. None" "\<lambda>d. ''p''" "\<lambda>s. ''0a1b''"
      "\<lambda>name r. (Inr name, try_mkdir name r)" Map.empty "[(''dimension'', Str ''t'')]"
      "Directory [(''log.current'', RegFile [])]"]
  have l3: "lookup3
        (Directory [(''log.current'', RegFile (''nipype-interfaces-fsl-Merge_0a1b'' @ [CHR 0x0A])),
           (''nipype-interfaces-fsl-Merge_0a1b'', Directory []),
           (''log.2011'', Directory [(''03'', Directory [(''07.log'',
               RegFile (''nipype-interfaces-fsl-Merge_0a1b'' @ [CHR 0x0A]))])])])
        (''log.2011'', ''03'', ''07.log'')
      = Some (RegFile (''nipype-interfaces-fsl-Merge_0a1b'' @ [CHR 0x0A]))"
    by (simp add: lookup3_def)
  from t cb c l3 show ?thesis by - (intro conjI, assumption+)
qed

section \<open>The claims on the garbage collection\<close>




text \<open>
  C1. \<^verbatim>\<open>_clear_all_but\<close> should remove the entries of the cache root that are not
  among the retained keys, and nothing else. It walks the symmetric difference of the
  keys and the entries instead, and removes whatever of it is on the disk. Here the
  retained keys are \<^verbatim>\<open>log.2011\<close> and \<^verbatim>\<open>fsl-Merge_0a1b\<close>: the directory with the logs of the
  year 2011, which is on the disk and is retained, is removed together with the one
  entry that is not retained.
\<close>

theorem clear_all_but_removes_retained_log_directory:
  "''log.2011'' \<in> set [''log.2011'', ''fsl-Merge_0a1b'']
   \<and> clear_all_but [''log.2011'', ''fsl-Merge_0a1b'']
        (Directory [(''log.current'', RegFile []), (''fsl-Merge_0a1b'', Directory []),
                    (''fsl-BET_77'', Directory []),
                    (''log.2011'', Directory [(''03'', Directory [(''07.log'', RegFile ''k'')])])])
       = (Inr (), Directory [(''log.current'', RegFile []), (''fsl-Merge_0a1b'', Directory [])])"
  by code_simp


text \<open>An entry of the cache root that is a regular file and is not retained makes
  \<^verbatim>\<open>shutil.rmtree\<close> raise: the collection stops, and the old log stays.\<close>

lemma clear_runs_since_regular_file:
  "clear_runs_since ''/work/nipype_mem'' \<lparr>tm_year = 2011, tm_mon = 3, tm_mday = 9\<rparr>
        (Some 8) (Some 3) (Some 2011)
        (Directory [(''log.current'', RegFile []), (''notes.txt'', RegFile ''n''),
                    (''log.2011'', Directory [(''03'', Directory [(''07.log'',
                        RegFile (''fsl-Merge_0a1b'' @ [CHR 0x0A]))])])])
       = (Inl (OSError ''notes.txt''),
          Directory [(''log.current'', RegFile []), (''notes.txt'', RegFile ''n''),
                    (''log.2011'', Directory [(''03'', Directory [(''07.log'',
                        RegFile (''fsl-Merge_0a1b'' @ [CHR 0x0A]))])])])"
  by code_simp



end
